theory Spec2Isabelle
  imports Complex_Main "HOL-Library.Sublist"
begin

section \<open>JavaScript strings and the string primitives the sources use\<close>

text \<open>
  A JavaScript string is modelled as a \<^typ>\<open>string\<close>, one \<^typ>\<open>char\<close> per code unit, so
  the model covers the texts whose code units are below 256 (Latin-1).  On these
  \<open>toLowerCase\<close> maps A to Z and the accented capitals \<open>0xC0\<close> to \<open>0xDE\<close> (without the
  multiplication sign \<open>0xD7\<close>) to the letter 32 places up and leaves every other
  character alone, and the class \<open>\s\<close> of the regular expressions is the six ASCII white
  space characters and the no-break space.  \<open>s.length\<close> is \<^const>\<open>length\<close>,
  \<open>s.substring(0, k)\<close> is \<^const>\<open>take\<close>.
\<close>

definition asciiUpper :: string where
  "asciiUpper = ''ABCDEFGHIJKLMNOPQRSTUVWXYZ''"

definition asciiLower :: string where
  "asciiLower = ''abcdefghijklmnopqrstuvwxyz''"

definition asciiDigits :: string where
  "asciiDigits = ''0123456789''"

definition latin1Upper :: string where
  "latin1Upper =
     [CHR 0xC0, CHR 0xC1, CHR 0xC2, CHR 0xC3, CHR 0xC4, CHR 0xC5, CHR 0xC6, CHR 0xC7,
      CHR 0xC8, CHR 0xC9, CHR 0xCA, CHR 0xCB, CHR 0xCC, CHR 0xCD, CHR 0xCE, CHR 0xCF,
      CHR 0xD0, CHR 0xD1, CHR 0xD2, CHR 0xD3, CHR 0xD4, CHR 0xD5, CHR 0xD6, CHR 0xD8,
      CHR 0xD9, CHR 0xDA, CHR 0xDB, CHR 0xDC, CHR 0xDD, CHR 0xDE]"

definition latin1Lower :: string where
  "latin1Lower =
     [CHR 0xE0, CHR 0xE1, CHR 0xE2, CHR 0xE3, CHR 0xE4, CHR 0xE5, CHR 0xE6, CHR 0xE7,
      CHR 0xE8, CHR 0xE9, CHR 0xEA, CHR 0xEB, CHR 0xEC, CHR 0xED, CHR 0xEE, CHR 0xEF,
      CHR 0xF0, CHR 0xF1, CHR 0xF2, CHR 0xF3, CHR 0xF4, CHR 0xF5, CHR 0xF6, CHR 0xF8,
      CHR 0xF9, CHR 0xFA, CHR 0xFB, CHR 0xFC, CHR 0xFD, CHR 0xFE]"

definition toLowerChar :: "char \<Rightarrow> char" where
  "toLowerChar c =
     (case map_of (zip (asciiUpper @ latin1Upper) (asciiLower @ latin1Lower)) c of
        None \<Rightarrow> c
      | Some d \<Rightarrow> d)"

definition toLowerCase :: "string \<Rightarrow> string" where
  "toLowerCase s = map toLowerChar s"

definition isWhitespace :: "char \<Rightarrow> bool" where
  "isWhitespace c \<longleftrightarrow>
     c \<in> set [CHR 0x09, CHR 0x0A, CHR 0x0B, CHR 0x0C, CHR 0x0D, CHR '' '', CHR 0xA0]"

definition isLineTerminator :: "char \<Rightarrow> bool" where
  "isLineTerminator c \<longleftrightarrow> c = CHR 0x0A \<or> c = CHR 0x0D"

text \<open>\<open>hay.includes(needle)\<close>: the needle occurs somewhere in the hay.\<close>

fun js_includes :: "string \<Rightarrow> string \<Rightarrow> bool" where
  "js_includes [] needle = (needle = [])"
| "js_includes (c # cs) needle = (prefix needle (c # cs) \<or> js_includes cs needle)"

text \<open>\<open>parts.join(sep)\<close>.\<close>

fun joinWith :: "string \<Rightarrow> string list \<Rightarrow> string" where
  "joinWith sep [] = []"
| "joinWith sep [p] = p"
| "joinWith sep (p # q # ps) = p @ sep @ joinWith sep (q # ps)"

text \<open>
  \<open>s.split(/[...]/)\<close> on a class of single characters: every delimiter cuts, so two
  delimiters in a row leave an empty piece between them and the empty string gives one
  empty piece.
\<close>

fun splitOn :: "(char \<Rightarrow> bool) \<Rightarrow> string \<Rightarrow> string list" where
  "splitOn d [] = [[]]"
| "splitOn d (c # cs) =
     (case splitOn d cs of
        [] \<Rightarrow> (if d c then [[], []] else [[c]])
      | p # ps \<Rightarrow> (if d c then [] # p # ps else (c # p) # ps))"

text \<open>
  \<open>s.split(/\s+/)\<close>: a maximal run of white space is one separator.  White space at
  the start or at the end leaves an empty piece there, and the empty string gives one
  empty piece.
\<close>

function splitWhitespace :: "string \<Rightarrow> string list" where
  "splitWhitespace s =
     (let tok = takeWhile (\<lambda>c. \<not> isWhitespace c) s;
          rest = dropWhile (\<lambda>c. \<not> isWhitespace c) s
      in if rest = [] then [tok] else tok # splitWhitespace (dropWhile isWhitespace rest))"
  by pat_completeness auto

lemma dropWhile_whitespace_shorter:
  assumes "dropWhile (\<lambda>c. \<not> isWhitespace c) s \<noteq> []"
  shows "length (dropWhile isWhitespace (dropWhile (\<lambda>c. \<not> isWhitespace c) s)) < length s"
proof -
  let ?rest = "dropWhile (\<lambda>c. \<not> isWhitespace c) s"
  from assms obtain c cs where cs: "?rest = c # cs"
    by (cases ?rest) auto
  have "\<not> \<not> isWhitespace (hd ?rest)"
    using assms by (rule hd_dropWhile)
  then have "isWhitespace c"
    using cs by simp
  then have "dropWhile isWhitespace ?rest = dropWhile isWhitespace cs"
    using cs by simp
  moreover have "length (dropWhile isWhitespace cs) \<le> length cs"
    by (rule length_dropWhile_le)
  moreover have "length ?rest \<le> length s"
    by (rule length_dropWhile_le)
  ultimately show ?thesis
    using cs by simp
qed

termination splitWhitespace
  by (relation "measure length") (simp_all add: dropWhile_whitespace_shorter)

declare splitWhitespace.simps [simp del]

text \<open>
  The positions where \<open>^\<close> matches under the \<open>m\<close> flag are the start of the text and
  the position after every line terminator; \<open>lineSuffixes\<close> lists the text from each of
  them on.  A pattern anchored by \<open>^\<close> that stays on its line matches once per line
  start, so \<open>(s.match(/^pat/gm) || []).length\<close> counts the suffixes the pattern opens.
\<close>

fun suffixesAfterTerminator :: "string \<Rightarrow> string list" where
  "suffixesAfterTerminator [] = []"
| "suffixesAfterTerminator (c # cs) =
     (if isLineTerminator c then cs # suffixesAfterTerminator cs else suffixesAfterTerminator cs)"

definition lineSuffixes :: "string \<Rightarrow> string list" where
  "lineSuffixes s = s # suffixesAfterTerminator s"

definition countLineStarts :: "(string \<Rightarrow> bool) \<Rightarrow> string \<Rightarrow> nat" where
  "countLineStarts opens s = length (filter opens (lineSuffixes s))"


section \<open>Structural template rotation (content-validation)\<close>

definition TEMPLATE_IDS :: "string list" where
  "TEMPLATE_IDS = [''ATLAS'', ''PERSONA'', ''CATALYST'', ''PLAYBOOK'', ''COMPASS'', ''BLUEPRINT'']"

text \<open>
  The message of the result is kept by its case and the values it interpolates, not as
  the formatted text.
\<close>

datatype template_message =
    TemplateIsValid string "string list"
  | TemplateUsedRecently string "string list"
  | TemplateInvalid string "string list"

record TemplateValidation =
  valid :: bool
  selectedTemplate :: string
  recentHistory :: "string list"
  excluded :: "string list"
  available :: "string list"
  message :: template_message

text \<open>\<open>xs.slice(-k)\<close>: the last \<open>k\<close> entries, all of them when there are fewer.\<close>

definition sliceLast :: "nat \<Rightarrow> 'a list \<Rightarrow> 'a list" where
  "sliceLast k xs = drop (length xs - k) xs"

definition validateTemplateSelection :: "string \<Rightarrow> string list \<Rightarrow> TemplateValidation" where
  "validateTemplateSelection selected history =
     (let lastTwo = sliceLast 2 history;
          excl = lastTwo;
          avail = filter (\<lambda>t. t \<notin> set excl) TEMPLATE_IDS;
          ok = (selected \<in> set avail)
      in \<lparr> valid = ok,
           selectedTemplate = selected,
           recentHistory = history,
           excluded = excl,
           available = avail,
           message = (if ok then TemplateIsValid selected excl
                      else if selected \<in> set excl then TemplateUsedRecently selected avail
                      else TemplateInvalid selected TEMPLATE_IDS) \<rparr>)"


section \<open>Phrase fingerprints (UniquenessEngine.extractKeyPhrases)\<close>

text \<open>
  \<open>dropThrough needle s\<close> is the text after the first occurrence of the needle, if there
  is one.
\<close>

fun dropThrough :: "string \<Rightarrow> string \<Rightarrow> string option" where
  "dropThrough needle [] = (if needle = [] then Some [] else None)"
| "dropThrough needle (c # cs) =
     (if prefix needle (c # cs) then Some (drop (length needle) (c # cs))
      else dropThrough needle cs)"

text \<open>
  \<open>content.replace(/^---[\s\S]*?---/, '')\<close>: without the \<open>m\<close> flag the pattern only
  matches at the very start; the lazy middle part stops at the first later \<open>---\<close>.  A
  text that opens with \<open>---\<close> and never closes it is left as it is.
\<close>

definition removeFrontmatter :: "string \<Rightarrow> string" where
  "removeFrontmatter content =
     (if prefix ''---'' content
      then (case dropThrough ''---'' (drop 3 content) of None \<Rightarrow> content | Some rest \<Rightarrow> rest)
      else content)"

definition markdownChars :: string where
  "markdownChars = ''#*_`[]()''"

definition plainText :: "string \<Rightarrow> string" where
  "plainText content =
     toLowerCase (map (\<lambda>c. if c \<in> set markdownChars then CHR '' '' else c)
                      (removeFrontmatter content))"

definition keyWords :: "string \<Rightarrow> string list" where
  "keyWords content = filter (\<lambda>w. 3 < length w) (splitWhitespace (plainText content))"

text \<open>
  The loop \<open>for (let i = 0; i < words.length - 4; i++)\<close> pushes
  \<open>words.slice(i, i + 4).join(' ')\<close>; for fewer than four words the bound is negative
  and the loop does not run, which the truncating subtraction on \<^typ>\<open>nat\<close> gives too.
\<close>

definition extractKeyPhrases :: "string \<Rightarrow> string list" where
  "extractKeyPhrases content =
     (let ws = keyWords content
      in map (\<lambda>i. joinWith '' '' (take 4 (drop i ws))) [0 ..< length ws - 4])"

text \<open>
  The specification's wording, for comparison: every contiguous window of exactly four
  tokens, in order of occurrence.
\<close>

definition allWindowsOfFour :: "string list \<Rightarrow> string list" where
  "allWindowsOfFour ws = map (\<lambda>i. joinWith '' '' (take 4 (drop i ws))) [0 ..< length ws - 3]"


section \<open>Similarity against the loaded corpus\<close>

text \<open>
  \<open>existingContent\<close> is a \<open>Map\<close> from slug to phrase list; it is kept as an association
  list in insertion order, which is the order the \<open>for ... of\<close> loops visit.  A \<open>Set\<close>
  built from a phrase list is the list without its repetitions.  Numbers are exact reals.
\<close>

type_synonym corpus = "(string \<times> string list) list"

definition overlapRatio :: "string list \<Rightarrow> string list \<Rightarrow> real" where
  "overlapRatio newPhrases existingPhrases =
     real (length (filter (\<lambda>p. p \<in> set existingPhrases) newPhrases))
       / real (max (length newPhrases) 1)"

text \<open>content-generator.ts: \<open>calculateSimilarity\<close> looks the slug up again.\<close>

definition calculateSimilarity :: "corpus \<Rightarrow> string \<Rightarrow> string \<Rightarrow> real" where
  "calculateSimilarity existingContent newContent existingSlug =
     (case map_of existingContent existingSlug of
        None \<Rightarrow> 0
      | Some existingPhrases \<Rightarrow>
          overlapRatio (remdups (extractKeyPhrases newContent)) existingPhrases)"

definition keepMax :: "real \<Rightarrow> string \<Rightarrow> real \<times> string \<Rightarrow> real \<times> string" where
  "keepMax similarity slug best = (if similarity > fst best then (similarity, slug) else best)"

definition calculateOverallSimilarity :: "corpus \<Rightarrow> string \<Rightarrow> real \<times> string" where
  "calculateOverallSimilarity existingContent newContent =
     fold (\<lambda>slug best. keepMax (calculateSimilarity existingContent newContent slug) slug best)
          (map fst existingContent) (0, [])"

text \<open>content-generator-ollama.ts: the same computation, written in one loop.\<close>

definition calculateOverallSimilarityOllama :: "corpus \<Rightarrow> string \<Rightarrow> real \<times> string" where
  "calculateOverallSimilarityOllama existingContent newContent =
     (let newPhrases = remdups (extractKeyPhrases newContent)
      in fold (\<lambda>(slug, existingPhrases) best.
                 keepMax (overlapRatio newPhrases existingPhrases) slug best)
              existingContent (0, []))"


section \<open>Briefs and differentiation reports\<close>

datatype search_intent = informational | transactional | navigational | commercial

datatype content_length = short | medium | long | comprehensive

record DataPoint =
  fact :: string
  factSource :: string
  verified :: bool

record ContentBrief =
  topic :: string
  targetKeyword :: string
  secondaryKeywords :: "string list"
  searchIntent :: search_intent
  audience :: string
  contentAngle :: string
  differentiators :: "string list"
  dataPoints :: "DataPoint list"
  uniqueInsight :: string
  contentLength :: content_length

text \<open>
  An issue is kept by its kind and the values its message interpolates.
\<close>

datatype issue =
    TooSimilar string real
  | TooFewDataPoints nat nat
  | TooFewUniquePhrases nat nat

record DifferentiationReport =
  uniqueFactCount :: nat
  uniquePhrases :: "string list"
  angleScore :: real
  dataScore :: real
  insightScore :: real
  overallScore :: real
  passesThreshold :: bool
  issues :: "issue list"

definition minUniquenessScore :: real where "minUniquenessScore = 75 / 100"
definition maxSimilarityAllowed :: real where "maxSimilarityAllowed = 3 / 10"
definition requiredUniqueDataPoints :: nat where "requiredUniqueDataPoints = 3"
definition requiredUniquePhrases :: nat where "requiredUniquePhrases = 5"

definition isSentenceEnd :: "char \<Rightarrow> bool" where
  "isSentenceEnd c \<longleftrightarrow> c \<in> set ''.!?''"

definition countFactsUsed :: "nat \<Rightarrow> string \<Rightarrow> DataPoint list \<Rightarrow> nat" where
  "countFactsUsed k content dps =
     length (filter (\<lambda>dp. js_includes (toLowerCase content) (take k (toLowerCase (fact dp)))) dps)"

text \<open>
  content-generator.ts, \<open>ContentGenerator.evaluateDifferentiation\<close>.  The module-level
  \<open>contentFingerprints\<close> map is a parameter.
\<close>

definition evaluateDifferentiation ::
  "corpus \<Rightarrow> corpus \<Rightarrow> string \<Rightarrow> ContentBrief \<Rightarrow> DifferentiationReport" where
  "evaluateDifferentiation existingContent contentFingerprints content brief =
     (let sim = calculateOverallSimilarity existingContent content;
          maxSimilarity = fst sim;
          mostSimilarTo = snd sim;
          factCount = countFactsUsed 50 content (dataPoints brief);
          contentPhrases =
            take 10 (filter (\<lambda>s. 50 < length s) (splitOn isSentenceEnd (toLowerCase content)));
          uniq = filter (\<lambda>phrase.
                   \<not> list_ex (\<lambda>(slug, existing).
                          list_ex (\<lambda>existingPhrase. js_includes phrase existingPhrase) existing)
                        contentFingerprints) contentPhrases;
          angle = 1 - maxSimilarity;
          data = real factCount / real (max (length (dataPoints brief)) 1);
          insight = (if js_includes (toLowerCase content)
                          (take 50 (toLowerCase (uniqueInsight brief))) then 1 else 0);
          overall = angle * (4 / 10) + data * (35 / 100) + insight * (25 / 100);
          found = (if maxSimilarity > maxSimilarityAllowed
                     then [TooSimilar mostSimilarTo maxSimilarity] else [])
                @ (if factCount < requiredUniqueDataPoints
                     then [TooFewDataPoints factCount requiredUniqueDataPoints] else [])
                @ (if length uniq < requiredUniquePhrases
                     then [TooFewUniquePhrases (length uniq) requiredUniquePhrases] else [])
      in \<lparr> uniqueFactCount = factCount,
           uniquePhrases = take 5 uniq,
           angleScore = angle,
           dataScore = data,
           insightScore = insight,
           overallScore = overall,
           passesThreshold = (overall \<ge> minUniquenessScore \<and> found = []),
           issues = found \<rparr>)"

text \<open>content-generator-ollama.ts, \<open>OllamaContentGenerator.evaluateDifferentiation\<close>.\<close>

definition evaluateDifferentiationOllama ::
  "corpus \<Rightarrow> string \<Rightarrow> ContentBrief \<Rightarrow> DifferentiationReport" where
  "evaluateDifferentiationOllama existingContent content brief =
     (let sim = calculateOverallSimilarityOllama existingContent content;
          maxSimilarity = fst sim;
          mostSimilarTo = snd sim;
          factCount = countFactsUsed 30 content (dataPoints brief);
          contentLower = toLowerCase content;
          sentences = filter (\<lambda>s. 50 < length s) (splitOn isSentenceEnd contentLower);
          uniq = take 5 sentences;
          angle = 1 - maxSimilarity;
          data = real factCount / real (max (length (dataPoints brief)) 1);
          insight = (if js_includes contentLower
                          (take 30 (toLowerCase (uniqueInsight brief))) then 1 else 1 / 2);
          overall = angle * (4 / 10) + data * (35 / 100) + insight * (25 / 100);
          found = (if maxSimilarity > maxSimilarityAllowed
                     then [TooSimilar mostSimilarTo maxSimilarity] else [])
                @ (if factCount < requiredUniqueDataPoints
                     then [TooFewDataPoints factCount requiredUniqueDataPoints] else [])
      in \<lparr> uniqueFactCount = factCount,
           uniquePhrases = uniq,
           angleScore = angle,
           dataScore = data,
           insightScore = insight,
           overallScore = overall,
           passesThreshold = (overall \<ge> minUniquenessScore \<and> found = []),
           issues = found \<rparr>)"

text \<open>
  content-generator-ollama.ts, \<open>OllamaContentGenerator.evaluateQuality\<close>: the additive
  score.  \<open>/^## /gm\<close>, \<open>/^### /gm\<close> and \<open>/^[*-] /gm\<close> are counted at line starts.
\<close>

definition opensListItem :: "string \<Rightarrow> bool" where
  "opensListItem t \<longleftrightarrow> prefix ''* '' t \<or> prefix ''- '' t"

definition evaluateQuality :: "string \<Rightarrow> ContentBrief \<Rightarrow> real" where
  "evaluateQuality content brief =
     (let wordCount = length (splitWhitespace content);
          h2Count = countLineStarts (prefix ''## '') content;
          h3Count = countLineStarts (prefix ''### '') content;
          listCount = countLineStarts opensListItem content;
          score0 = (0 :: real);
          score1 = score0 + (if wordCount \<ge> 2000 then 3 / 10
                             else if wordCount \<ge> 1500 then 2 / 10
                             else if wordCount \<ge> 1000 then 1 / 10 else 0);
          score2 = score1 + (if h2Count \<ge> 3 then 2 / 10 else 0);
          score3 = score2 + (if h3Count \<ge> 2 then 1 / 10 else 0);
          score4 = score3 + (if listCount \<ge> 3 then 1 / 10 else 0);
          score5 = score4 + (if js_includes content (targetKeyword brief) then 1 / 10 else 0);
          score6 = score5 + (if js_includes (toLowerCase content) ''example'' then 1 / 10 else 0);
          score7 = score6 + (if js_includes (toLowerCase content) ''step'' then 1 / 10 else 0)
      in min score7 1)"


text \<open>A brief used to evaluate the scoring functions on concrete inputs.\<close>

definition sampleBrief :: ContentBrief where
  "sampleBrief =
     \<lparr> topic = ''crm automation'',
       targetKeyword = ''crm'',
       secondaryKeywords = [],
       searchIntent = informational,
       audience = ''agents'',
       contentAngle = ''case-study'',
       differentiators = [],
       dataPoints = [\<lparr> fact = ''Adoption grew 40 percent'', factSource = ''survey'',
                       verified = False \<rparr>],
       uniqueInsight = ''Follow-up speed matters most'',
       contentLength = long \<rparr>"

section \<open>Angle rotation and brief generation (content-generator.ts)\<close>

datatype js_error = Error string | TypeError string | SyntaxError string

definition informationalAngles :: "string list" where
  "informationalAngles =
     [''beginner-guide'', ''expert-deep-dive'', ''case-study'', ''comparison'',
      ''step-by-step'', ''common-mistakes'', ''future-trends'', ''data-analysis'',
      ''interview-synthesis'', ''contrarian-view'']"

text \<open>
  \<open>CONTENT_ANGLES\<close> of content-generator.ts has the keys \<open>informational\<close>,
  \<open>transactional\<close> and \<open>commercial\<close>; \<open>navigational\<close> is not a key.
\<close>

fun CONTENT_ANGLES :: "search_intent \<Rightarrow> string list option" where
  "CONTENT_ANGLES informational = Some informationalAngles"
| "CONTENT_ANGLES transactional =
     Some [''roi-focused'', ''implementation-guide'', ''feature-breakdown'',
           ''pricing-analysis'', ''use-case-specific'']"
| "CONTENT_ANGLES commercial =
     Some [''buyer-guide'', ''alternatives-analysis'', ''pros-cons'', ''industry-specific'']"
| "CONTENT_ANGLES navigational = None"

text \<open>
  The engine's \<open>usedAngles\<close> is a \<open>Map\<close> from topic to a \<open>Set\<close> of angles.
\<close>

record UniquenessEngine =
  existingContent :: corpus
  usedAngles :: "string \<rightharpoonup> string set"
  usedDataPoints :: "string set"

definition registerAngle :: "UniquenessEngine \<Rightarrow> string \<Rightarrow> string \<Rightarrow> UniquenessEngine" where
  "registerAngle engine tpc angle =
     (let current = (case usedAngles engine tpc of None \<Rightarrow> {} | Some used \<Rightarrow> used)
      in engine \<lparr> usedAngles := (usedAngles engine)(tpc \<mapsto> insert angle current) \<rparr>)"

text \<open>\<open>CONTENT_ANGLES[intent] || CONTENT_ANGLES.informational\<close>.\<close>

definition allAngles :: "search_intent \<Rightarrow> string list" where
  "allAngles intent =
     (case CONTENT_ANGLES intent of None \<Rightarrow> informationalAngles | Some angles \<Rightarrow> angles)"

definition getAvailableAngles :: "UniquenessEngine \<Rightarrow> string \<Rightarrow> search_intent \<Rightarrow> string list" where
  "getAvailableAngles engine tpc intent =
     (let usedForTopic = (case usedAngles engine tpc of None \<Rightarrow> {} | Some used \<Rightarrow> used)
      in filter (\<lambda>angle. angle \<notin> usedForTopic) (allAngles intent))"

text \<open>
  The model client is called with a request that carries the values the prompt
  interpolates, and answers with a text or fails.  \<open>JSON.parse\<close> is the language's; it
  is a parameter at the type the brief gives its result, \<open>None\<close> when it throws.
\<close>

datatype llm_request =
    DifferentiatorRequest string string string string search_intent
  | DataPointRequest string string
  | InsightRequest string

definition exhaustedMessage :: "string \<Rightarrow> string" where
  "exhaustedMessage tpc =
     ''All content angles exhausted for topic: '' @ tpc @ ''. Consider a new topic cluster.''"

definition generateBrief ::
  "(llm_request \<Rightarrow> js_error + string) \<Rightarrow> (string \<Rightarrow> string list option)
     \<Rightarrow> (string \<Rightarrow> DataPoint list option) \<Rightarrow> UniquenessEngine
     \<Rightarrow> string \<Rightarrow> string \<Rightarrow> search_intent \<Rightarrow> string
     \<Rightarrow> js_error + (ContentBrief \<times> UniquenessEngine)" where
  "generateBrief client parseStrings parseDataPoints engine tpc keyword intent aud =
     (case getAvailableAngles engine tpc intent of
        [] \<Rightarrow> Inl (Error (exhaustedMessage tpc))
      | angle # _ \<Rightarrow>
          (case client (DifferentiatorRequest tpc angle aud keyword intent) of
             Inl e \<Rightarrow> Inl e
           | Inr diffText \<Rightarrow>
          (case parseStrings diffText of
             None \<Rightarrow> Inl (SyntaxError ''JSON.parse'')
           | Some diffList \<Rightarrow>
          (case client (DataPointRequest tpc keyword) of
             Inl e \<Rightarrow> Inl e
           | Inr dataText \<Rightarrow>
          (case parseDataPoints dataText of
             None \<Rightarrow> Inl (SyntaxError ''JSON.parse'')
           | Some dps \<Rightarrow>
          (case client (InsightRequest tpc) of
             Inl e \<Rightarrow> Inl e
           | Inr insight \<Rightarrow>
               Inr (\<lparr> topic = tpc,
                      targetKeyword = keyword,
                      secondaryKeywords = [],
                      searchIntent = intent,
                      audience = aud,
                      contentAngle = angle,
                      differentiators = diffList,
                      dataPoints = dps,
                      uniqueInsight = insight,
                      contentLength = long \<rparr>,
                    registerAngle engine tpc angle)))))))"

definition newEngine :: UniquenessEngine where
  "newEngine = \<lparr> existingContent = [], usedAngles = Map.empty, usedDataPoints = {} \<rparr>"

text \<open>A client that always answers, for evaluating \<open>generateBrief\<close>.\<close>

definition echoClient :: "llm_request \<Rightarrow> js_error + string" where
  "echoClient request = Inr ''ok''"


section \<open>The blog registry (blog-registry.ts)\<close>

definition BLOCKED_PHOTO_IDS :: "string list" where
  "BLOCKED_PHOTO_IDS = [''photo-1560518883-ce09059eeffa'']"

text \<open>
  The library is an object literal; its own keys are listed in the order they are written,
  which is the order \<open>Object.values\<close> visits.
\<close>

definition COVER_PHOTO_LIBRARY :: "(string \<times> string list) list" where
  "COVER_PHOTO_LIBRARY =
     [(''nyc'',
        [''photo-1534430480872-3498386e7856'', ''photo-1555529669-e69e7aa0ba9a'',
         ''photo-1496442226666-8d4d0e62e6e9'', ''photo-1499092346589-b9b6be3e94b2'',
         ''photo-1518391846015-55a9cc003b25'', ''photo-1543716091-a840c05249ec'',
         ''photo-1485871981521-5b1fd3805eee'', ''photo-1522083165195-3424ed129620'',
         ''photo-1480714378408-67cf0d13bc1b'', ''photo-1534270804882-6b5048b1c1fc'',
         ''photo-1570168007204-dfb528c6958f'', ''photo-1582407947304-fd86f028f716'',
         ''photo-1560520653-9e0e4c89eb11'', ''photo-1555109307-f7d9da25c244'',
         ''photo-1502672260266-1c1ef2d93688'', ''photo-1512917774080-9991f1c4c750'',
         ''photo-1600596542815-ffad4c1539a9'', ''photo-1600607687939-ce8a6c25118c'',
         ''photo-1600585154340-be6161a56a0c'', ''photo-1600573472550-8090b5e0745e'',
         ''photo-1568605114967-8130f3a36994'', ''photo-1523217582562-09d0def993a6'',
         ''photo-1580587771525-78b9dba3b914'', ''photo-1564013799919-ab600027ffc6'']),
      (''brooklyn'',
        [''photo-1558981403-c5f9899a28bc'', ''photo-1555992336-03a23f37e571'',
         ''photo-1580137197581-df2bb346a786'', ''photo-1567684014761-b65e2e59b9eb'',
         ''photo-1595880500386-4b33823094d0'', ''photo-1611348586804-61bf6c080437'']),
      (''manhattan'',
        [''photo-1534430480872-3498386e7856'', ''photo-1555883006-0f5a0915a80f'',
         ''photo-1568515387631-8b650bbcdb90'', ''photo-1558618666-fcd25c85cd64'',
         ''photo-1513635269975-59663e0ac1ad'', ''photo-1722030670436-3df19cd72050'']),
      (''queens'',
        [''photo-1570168007204-dfb528c6958f'', ''photo-1583608205776-bfd35f0d9f83'',
         ''photo-1600047509358-9dc75507daeb'', ''photo-1600566753190-17f0baa2a6c4'']),
      (''seattle'',
        [''photo-1502175353174-a7a70e73b362'', ''photo-1558452919-08ae4aca8571'',
         ''photo-1548248823-ce16a73b6d49'', ''photo-1515694590244-e4c8d2e5d10e'',
         ''photo-1416339306562-f3d12fefd36f'']),
      (''real-estate'',
        [''photo-1582407947304-fd86f028f716'', ''photo-1560520653-9e0e4c89eb11'',
         ''photo-1560185007-c5ca9d2c014d'', ''photo-1560184897-ae75f418493e'',
         ''photo-1600585154340-be6161a56a0c'', ''photo-1600573472550-8090b5e0745e'',
         ''photo-1600566753086-00f18fb6b3ea'', ''photo-1600607687920-4e2a09cf159d'',
         ''photo-1605276374104-dee2a0ed3cd6''])]"

datatype blog_source = seo | usta_react

record BlogInfo =
  slug :: string
  neighborhood :: string
  borough :: "string option"
  city :: "string option"
  state :: string
  publishedAt :: string
  coverPhotoId :: string

record PublishedBlog = BlogInfo +
  source :: blog_source

record BlogRegistryData =
  version :: string
  lastUpdated :: string
  publishedBlogs :: "PublishedBlog list"
  usedCoverPhotos :: "string list"

record BlogRegistry =
  registryData :: BlogRegistryData
  dirty :: bool

text \<open>\<open>s.toLowerCase().replace(/[^a-z0-9]/g, '')\<close> and its two relatives.\<close>

definition normalizeAlnum :: "string \<Rightarrow> string" where
  "normalizeAlnum s =
     filter (\<lambda>c. c \<in> set asciiLower \<or> c \<in> set asciiDigits) (toLowerCase s)"

definition normalizeSlug :: "string \<Rightarrow> string" where
  "normalizeSlug s =
     filter (\<lambda>c. c \<in> set asciiLower \<or> c \<in> set asciiDigits \<or> c = CHR ''-'') (toLowerCase s)"

definition normalizeCategory :: "string \<Rightarrow> string" where
  "normalizeCategory s = filter (\<lambda>c. c \<in> set asciiLower \<or> c = CHR ''-'') (toLowerCase s)"

text \<open>
  \<open>hasNeighborhood\<close>: an absent optional argument and an absent optional field both
  become the empty string through \<open>|| ''\<close>.  The state is lower-cased and nothing is
  stripped from it.
\<close>

definition hasNeighborhood ::
  "BlogRegistry \<Rightarrow> string \<Rightarrow> string option \<Rightarrow> string option \<Rightarrow> bool" where
  "hasNeighborhood reg nbh bor st =
     (let normalizedNeighborhood = normalizeAlnum nbh;
          normalizedBorough = (case bor of None \<Rightarrow> [] | Some b \<Rightarrow> normalizeAlnum b);
          normalizedState = (case st of None \<Rightarrow> [] | Some t \<Rightarrow> toLowerCase t)
      in list_ex (\<lambda>blog.
           let blogNeighborhood = normalizeAlnum (neighborhood blog);
               blogBorough = (case borough blog of None \<Rightarrow> [] | Some b \<Rightarrow> normalizeAlnum b);
               blogState = toLowerCase (state blog)
           in if blogNeighborhood \<noteq> normalizedNeighborhood then False
              else if normalizedBorough \<noteq> [] \<and> blogBorough \<noteq> []
                      \<and> blogBorough \<noteq> normalizedBorough then False
              else if normalizedState \<noteq> [] \<and> blogState \<noteq> []
                      \<and> blogState \<noteq> normalizedState then False
              else True)
         (publishedBlogs (registryData reg)))"

text \<open>
  The specification's wording of the same check, for comparison: all three fields are
  normalized by lower-casing and stripping what is not a letter or a digit; an omitted or
  blank query qualifier or region does not constrain, and a blank stored one matches
  anything.
\<close>

definition fieldMatches :: "string option \<Rightarrow> string \<Rightarrow> bool" where
  "fieldMatches query stored \<longleftrightarrow>
     (case query of
        None \<Rightarrow> True
      | Some q \<Rightarrow> normalizeAlnum q = [] \<or> normalizeAlnum stored = []
                    \<or> normalizeAlnum stored = normalizeAlnum q)"

definition specHasLocation ::
  "BlogRegistry \<Rightarrow> string \<Rightarrow> string option \<Rightarrow> string option \<Rightarrow> bool" where
  "specHasLocation reg nbh bor st =
     list_ex (\<lambda>blog.
         normalizeAlnum (neighborhood blog) = normalizeAlnum nbh
         \<and> fieldMatches bor (case borough blog of None \<Rightarrow> [] | Some b \<Rightarrow> b)
         \<and> fieldMatches st (state blog))
       (publishedBlogs (registryData reg))"

definition hasSlug :: "BlogRegistry \<Rightarrow> string \<Rightarrow> bool" where
  "hasSlug reg s =
     (let normalizedSlug = normalizeSlug s
      in list_ex (\<lambda>blog. normalizeSlug (slug blog) = normalizedSlug)
           (publishedBlogs (registryData reg)))"

definition isPhotoUsed :: "BlogRegistry \<Rightarrow> string \<Rightarrow> bool" where
  "isPhotoUsed reg photoId \<longleftrightarrow>
     photoId \<in> set (usedCoverPhotos (registryData reg)) \<or> photoId \<in> set BLOCKED_PHOTO_IDS"

text \<open>
  \<open>COVER_PHOTO_LIBRARY[cat] || []\<close> reads a property of a plain object, so a name the
  object inherits is found too.  After the normalization a category consists of the
  letters a to z and the hyphen, and the only such name on \<open>Object.prototype\<close> is
  \<open>constructor\<close>: there the lookup yields the function \<open>Object\<close>, which is truthy and not
  iterable, and \<open>for (const photoId of photos)\<close> throws a \<open>TypeError\<close>.
\<close>

definition photosOfCategory :: "string \<Rightarrow> js_error + string list" where
  "photosOfCategory cat =
     (case map_of COVER_PHOTO_LIBRARY cat of
        Some photos \<Rightarrow> Inr photos
      | None \<Rightarrow> if cat = ''constructor'' then Inl (TypeError ''photos is not iterable'')
                else Inr [])"

text \<open>The inner loop: the first photo that is neither blocked nor used.\<close>

fun firstUnused :: "string list \<Rightarrow> string list \<Rightarrow> string option" where
  "firstUnused used [] = None"
| "firstUnused used (photoId # rest) =
     (if photoId \<in> set BLOCKED_PHOTO_IDS then firstUnused used rest
      else if photoId \<notin> set used then Some photoId
      else firstUnused used rest)"

text \<open>The outer loop over the categories.\<close>

fun scanCategories :: "string list \<Rightarrow> string list \<Rightarrow> js_error + string option" where
  "scanCategories used [] = Inr None"
| "scanCategories used (cat # cats) =
     (case photosOfCategory cat of
        Inl e \<Rightarrow> Inl e
      | Inr photos \<Rightarrow>
          (case firstUnused used photos of
             Some photoId \<Rightarrow> Inr (Some photoId)
           | None \<Rightarrow> scanCategories used cats))"

definition photoUrl :: "string \<Rightarrow> string" where
  "photoUrl photoId = ''https://images.unsplash.com/'' @ photoId @ ''?w=1200&auto=format&fit=crop''"

definition allNonBlockedPhotos :: "string list" where
  "allNonBlockedPhotos =
     filter (\<lambda>p. p \<notin> set BLOCKED_PHOTO_IDS) (concat (map snd COVER_PHOTO_LIBRARY))"

text \<open>
  \<open>allPhotos[Math.floor(Math.random() * allPhotos.length)]\<close>: the random number is a
  parameter; an index outside the list reads \<open>undefined\<close>.
\<close>

definition randomPhoto :: "real \<Rightarrow> string" where
  "randomPhoto rnd =
     (let i = \<lfloor>rnd * real (length allNonBlockedPhotos)\<rfloor>
      in if 0 \<le> i \<and> i < int (length allNonBlockedPhotos)
         then allNonBlockedPhotos ! nat i else ''undefined'')"

definition categoryChain :: "string option \<Rightarrow> string list" where
  "categoryChain category =
     [normalizeCategory (case category of None \<Rightarrow> ''nyc'' | Some c \<Rightarrow> c),
      ''nyc'', ''real-estate'']"

text \<open>
  \<open>getUniqueCoverPhoto(category = 'nyc')\<close> returns its result and the registry it leaves
  behind.
\<close>

definition getUniqueCoverPhoto ::
  "BlogRegistry \<Rightarrow> string option \<Rightarrow> real \<Rightarrow> (js_error + string) \<times> BlogRegistry" where
  "getUniqueCoverPhoto reg category rnd =
     (case scanCategories (usedCoverPhotos (registryData reg)) (categoryChain category) of
        Inl e \<Rightarrow> (Inl e, reg)
      | Inr (Some photoId) \<Rightarrow> (Inr (photoUrl photoId), reg)
      | Inr None \<Rightarrow> (Inr (photoUrl (randomPhoto rnd)), reg))"

text \<open>\<open>photoUrl.match(/photo-[a-zA-Z0-9_-]+/)\<close>: the leftmost match, as long as it can be.\<close>

definition isPhotoIdChar :: "char \<Rightarrow> bool" where
  "isPhotoIdChar c \<longleftrightarrow>
     c \<in> set asciiLower \<or> c \<in> set asciiUpper \<or> c \<in> set asciiDigits
     \<or> c = CHR ''_'' \<or> c = CHR ''-''"

fun matchPhotoId :: "string \<Rightarrow> string option" where
  "matchPhotoId [] = None"
| "matchPhotoId (c # cs) =
     (if prefix ''photo-'' (c # cs) \<and> takeWhile isPhotoIdChar (drop 6 (c # cs)) \<noteq> []
      then Some (''photo-'' @ takeWhile isPhotoIdChar (drop 6 (c # cs)))
      else matchPhotoId cs)"

text \<open>The shape of an id that the pattern matches as a whole.\<close>

definition isPhotoId :: "string \<Rightarrow> bool" where
  "isPhotoId p \<longleftrightarrow>
     prefix ''photo-'' p \<and> drop 6 p \<noteq> [] \<and> list_all isPhotoIdChar (drop 6 p)"

definition pushUnlessPresent :: "string \<Rightarrow> string list \<Rightarrow> string list" where
  "pushUnlessPresent photoId used = (if photoId \<notin> set used then used @ [photoId] else used)"

definition reserveCoverPhoto :: "BlogRegistry \<Rightarrow> string \<Rightarrow> BlogRegistry" where
  "reserveCoverPhoto reg url =
     (case matchPhotoId url of
        None \<Rightarrow> reg
      | Some photoId \<Rightarrow>
          if photoId \<notin> set (usedCoverPhotos (registryData reg))
          then reg \<lparr> registryData := (registryData reg)
                       \<lparr> usedCoverPhotos := usedCoverPhotos (registryData reg) @ [photoId] \<rparr>,
                     dirty := True \<rparr>
          else reg)"

text \<open>
  \<open>registerBlog\<close>: the photo is reserved first, then the blog is pushed with source
  \<open>seo\<close> unless its slug is already there.
\<close>

definition registerBlog :: "BlogRegistry \<Rightarrow> BlogInfo \<Rightarrow> BlogRegistry" where
  "registerBlog reg blog =
     (let reg1 = (if coverPhotoId blog \<noteq> []
                  then reg \<lparr> registryData := (registryData reg)
                         \<lparr> usedCoverPhotos :=
                             pushUnlessPresent (coverPhotoId blog)
                               (usedCoverPhotos (registryData reg)) \<rparr> \<rparr>
                  else reg);
          reg2 = (if \<not> hasSlug reg1 (slug blog)
                  then reg1 \<lparr> registryData := (registryData reg1)
                         \<lparr> publishedBlogs := publishedBlogs (registryData reg1)
                             @ [\<lparr> slug = slug blog,
                                  neighborhood = neighborhood blog,
                                  borough = borough blog,
                                  city = city blog,
                                  state = state blog,
                                  publishedAt = publishedAt blog,
                                  coverPhotoId = coverPhotoId blog,
                                  source = seo \<rparr>] \<rparr> \<rparr>
                  else reg1)
      in reg2 \<lparr> dirty := True \<rparr>)"

definition emptyRegistry :: BlogRegistry where
  "emptyRegistry =
     \<lparr> registryData = \<lparr> version = ''1.0.0'', lastUpdated = [], publishedBlogs = [],
                         usedCoverPhotos = [] \<rparr>,
       dirty = False \<rparr>"

definition harlemBlog :: BlogInfo where
  "harlemBlog =
     \<lparr> slug = ''harlem-manhattan-geographic-farming-guide'',
       neighborhood = ''Harlem'',
       borough = Some ''Manhattan'',
       city = None,
       state = ''NY'',
       publishedAt = ''2026-01-06'',
       coverPhotoId = ''photo-1555883006-0f5a0915a80f'' \<rparr>"

definition isUsedAngle :: "UniquenessEngine \<Rightarrow> string \<Rightarrow> string \<Rightarrow> bool" where
  "isUsedAngle e t a = (case usedAngles e t of None \<Rightarrow> False | Some used \<Rightarrow> a \<in> used)"

text \<open>
  The specification's buckets, for comparison: the photos listed under a category, none
  for a name that is not a category; and the priority chain as one list.
\<close>

definition photoBucket :: "string \<Rightarrow> string list" where
  "photoBucket cat = (case map_of COVER_PHOTO_LIBRARY cat of None \<Rightarrow> [] | Some photos \<Rightarrow> photos)"

definition chainPhotos :: "string option \<Rightarrow> string list" where
  "chainPhotos category = concat (map photoBucket (categoryChain category))"


section \<open>Content generation with the local model (content-generator-ollama.ts)\<close>

datatype json =
    JNull
  | JBool bool
  | JNumber real
  | JString string
  | JArray "json list"
  | JObject "(string \<times> json) list"

text \<open>\<open>s.trim()\<close>.\<close>

definition trim :: "string \<Rightarrow> string" where
  "trim s = rev (dropWhile isWhitespace (rev (dropWhile isWhitespace s)))"

text \<open>
  \<open>splitAtFirst needle s\<close> cuts the text at the first occurrence of the needle, if there
  is one, into what is before it and what is after it.
\<close>

fun splitAtFirst :: "string \<Rightarrow> string \<Rightarrow> (string \<times> string) option" where
  "splitAtFirst needle [] = (if needle = [] then Some ([], []) else None)"
| "splitAtFirst needle (c # cs) =
     (if prefix needle (c # cs) then Some ([], drop (length needle) (c # cs))
      else map_option (\<lambda>(before, after). (c # before, after)) (splitAtFirst needle cs))"

text \<open>
  The patterns \<open>/```json\s*([\s\S]*?)```/\<close> and \<open>/```\s*([\s\S]*?)```/\<close>: the leftmost
  opener, the white space after it, and the text up to the next fence.  The result is the
  whole match and the captured group.  White space holds no backquote, so the greedy
  \<open>\s*\<close> never gives anything back, and an opener that no fence follows is followed by no
  other opener either.
\<close>

definition matchFenced :: "string \<Rightarrow> string \<Rightarrow> (string \<times> string) option" where
  "matchFenced opener text =
     (case splitAtFirst opener text of
        None \<Rightarrow> None
      | Some (before, r) \<Rightarrow>
          (case splitAtFirst ''```'' (dropWhile isWhitespace r) of
             None \<Rightarrow> None
           | Some (inner, after) \<Rightarrow>
               Some (opener @ takeWhile isWhitespace r @ inner @ ''```'', inner)))"

text \<open>\<open>/\{[\s\S]*\}/\<close>: from the first opening brace to the last closing brace after it.\<close>

definition matchBraces :: "string \<Rightarrow> string option" where
  "matchBraces text =
     (let fromOpen = dropWhile (\<lambda>c. c \<noteq> CHR ''{'') text;
          body = rev (dropWhile (\<lambda>c. c \<noteq> CHR ''}'') (rev fromOpen))
      in if body = [] then None else Some body)"

text \<open>
  \<open>extractJSON\<close> tries the patterns in order and parses \<open>match[1] || match[0]\<close>,
  trimmed; a pattern that does not match or whose text does not parse is skipped.  At the
  end the whole trimmed text is parsed.  \<open>JSON.parse\<close> is a parameter, \<open>None\<close> when it
  throws.
\<close>

definition jsonCandidates :: "string \<Rightarrow> string list" where
  "jsonCandidates text =
     (case matchFenced ''```json'' text of
        None \<Rightarrow> []
      | Some (whole, inner) \<Rightarrow> [if inner \<noteq> [] then inner else whole])
     @ (case matchFenced ''```'' text of
        None \<Rightarrow> []
      | Some (whole, inner) \<Rightarrow> [if inner \<noteq> [] then inner else whole])
     @ (case matchBraces text of None \<Rightarrow> [] | Some whole \<Rightarrow> [whole])"

fun firstParse :: "(string \<Rightarrow> json option) \<Rightarrow> string list \<Rightarrow> json option" where
  "firstParse parse [] = None"
| "firstParse parse (candidate # rest) =
     (case parse (trim candidate) of Some v \<Rightarrow> Some v | None \<Rightarrow> firstParse parse rest)"

definition extractJSON :: "(string \<Rightarrow> json option) \<Rightarrow> string \<Rightarrow> js_error + json" where
  "extractJSON parse text =
     (case firstParse parse (jsonCandidates text) of
        Some v \<Rightarrow> Inr v
      | None \<Rightarrow>
          (case parse (trim text) of
             Some v \<Rightarrow> Inr v
           | None \<Rightarrow> Inl (Error ''Could not extract valid JSON from response'')))"

text \<open>
  What \<open>generateContent\<close> observes of the parsed value: \<open>generatedData.content\<close>
  (reading a property of \<open>null\<close> throws, a value without the property gives
  \<open>undefined\<close>, here \<open>None\<close>), the truthiness of the content, and \<open>content.length < 500\<close>.
  The comparison converts its left side with the language's \<open>ToNumber\<close>, a parameter
  for the values that are not numbers already; \<open>undefined\<close> and \<open>NaN\<close> compare false.
\<close>

fun truthy :: "json \<Rightarrow> bool" where
  "truthy JNull = False"
| "truthy (JBool b) = b"
| "truthy (JNumber x) = (x \<noteq> 0)"
| "truthy (JString s) = (s \<noteq> [])"
| "truthy (JArray xs) = True"
| "truthy (JObject props) = True"

fun contentOf :: "json \<Rightarrow> js_error + json option" where
  "contentOf JNull = Inl (TypeError ''Cannot read properties of null (reading content)'')"
| "contentOf (JObject props) = Inr (map_of props ''content'')"
| "contentOf v = Inr None"

fun lengthOf :: "json \<Rightarrow> json option" where
  "lengthOf (JString s) = Some (JNumber (real (length s)))"
| "lengthOf (JArray xs) = Some (JNumber (real (length xs)))"
| "lengthOf (JObject props) = map_of props ''length''"
| "lengthOf v = None"

definition lessThan500 :: "(json \<Rightarrow> real option) \<Rightarrow> json option \<Rightarrow> bool" where
  "lessThan500 toNumber v =
     (case v of
        None \<Rightarrow> False
      | Some (JNumber n) \<Rightarrow> n < 500
      | Some w \<Rightarrow> (case toNumber w of None \<Rightarrow> False | Some n \<Rightarrow> n < 500))"

text \<open>\<open>s.replace(/[^a-z0-9]+/g, '-')\<close>: every maximal run of other characters becomes one hyphen.\<close>

definition isLowerAlnum :: "char \<Rightarrow> bool" where
  "isLowerAlnum c \<longleftrightarrow> c \<in> set asciiLower \<or> c \<in> set asciiDigits"

function hyphenate :: "string \<Rightarrow> string" where
  "hyphenate [] = []"
| "hyphenate (c # cs) =
     (if isLowerAlnum c then c # hyphenate cs
      else CHR ''-'' # hyphenate (dropWhile (\<lambda>d. \<not> isLowerAlnum d) cs))"
  by pat_completeness auto

termination hyphenate
  by (relation "measure length") (auto simp: le_imp_less_Suc length_dropWhile_le)

text \<open>
  The result of \<open>generateContent\<close>: the parsed object that is spread into it, and the
  fields computed from the content.  The digest function is a parameter.
\<close>

record GeneratedContent =
  generatedData :: json
  wordCount :: nat
  uniquenessScore :: real
  qualityScore :: real
  contentHash :: string
  differentiationReport :: DifferentiationReport
  generatedBy :: string

definition tooShortMessage :: string where
  "tooShortMessage = ''Generated content is too short. Please try again.''"

definition fallbackData :: "ContentBrief \<Rightarrow> string \<Rightarrow> json" where
  "fallbackData brief response =
     JObject
       [(''title'', JString (topic brief @ '': A Comprehensive Guide'')),
        (''metaDescription'',
           JString (''Learn everything about '' @ topic brief @ ''. Expert insights for ''
                    @ audience brief @ ''.'')),
        (''slug'', JString (hyphenate (toLowerCase (topic brief)))),
        (''content'', JString response),
        (''faqItems'', JArray [])]"

definition generateContent ::
  "(string \<Rightarrow> json option) \<Rightarrow> (json \<Rightarrow> real option) \<Rightarrow> (string \<Rightarrow> string) \<Rightarrow> string
     \<Rightarrow> corpus \<Rightarrow> ContentBrief \<Rightarrow> string \<Rightarrow> js_error + GeneratedContent" where
  "generateContent parse toNumber sha256hex modelName existing brief response =
     (let parsed = (case extractJSON parse response of
                      Inr v \<Rightarrow> v
                    | Inl e \<Rightarrow> fallbackData brief response)
      in case contentOf parsed of
           Inl e \<Rightarrow> Inl e
         | Inr None \<Rightarrow> Inl (Error tooShortMessage)
         | Inr (Some c) \<Rightarrow>
             if \<not> truthy c \<or> lessThan500 toNumber (lengthOf c)
             then Inl (Error tooShortMessage)
             else (case c of
                     JString text \<Rightarrow>
                       (let report = evaluateDifferentiationOllama existing text brief
                        in Inr \<lparr> generatedData = parsed,
                                 wordCount = length (splitWhitespace text),
                                 uniquenessScore = overallScore report,
                                 qualityScore = evaluateQuality text brief,
                                 contentHash = take 16 (sha256hex text),
                                 differentiationReport = report,
                                 generatedBy = modelName \<rparr>)
                   | _ \<Rightarrow> Inl (TypeError ''content.replace is not a function'')))"

text \<open>A parser that knows the literal \<open>null\<close> only, for evaluating on that response.\<close>

definition parseOnlyNull :: "string \<Rightarrow> json option" where
  "parseOnlyNull s = (if s = ''null'' then Some JNull else None)"


section \<open>Template rotation: the last two templates are excluded\<close>

lemma two_element_list:
  assumes "length xs = 2"
  shows "xs = [xs ! 0, xs ! 1]"
proof -
  from assms obtain a ys where a: "xs = a # ys"
    by (cases xs) auto
  with assms obtain b zs where b: "ys = b # zs"
    by (cases ys) auto
  with a assms have "zs = []"
    by simp
  with a b show ?thesis
    by simp
qed

lemma sliceLast_two:
  assumes "2 \<le> length h"
  shows "sliceLast 2 h = [h ! (length h - 2), h ! (length h - 1)]"
proof -
  let ?n = "length h - 2"
  have len: "length (drop ?n h) = 2"
    using assms by simp
  have idx: "?n + 1 = length h - 1"
    using assms by arith
  have n0: "drop ?n h ! 0 = h ! ?n"
    using assms by simp
  have "drop ?n h ! 1 = h ! (?n + 1)"
    using assms by (intro nth_drop) simp
  then have n1: "drop ?n h ! 1 = h ! (length h - 1)"
    using idx by simp
  have "drop ?n h = [drop ?n h ! 0, drop ?n h ! 1]"
    using len by (rule two_element_list)
  then show ?thesis
    using n0 n1 by (simp add: sliceLast_def)
qed

text \<open>
  C4.  For a history of at least two entries, \<open>validateTemplateSelection\<close> reports as
  excluded exactly the last two entries of the history, rejects each of them, and accepts
  every other member of the six-template set.  For any history at all, the excluded list
  is the history's last two entries, or the whole history when it is shorter.
\<close>

theorem validateTemplateSelection_excludes_last_two:
  assumes "2 \<le> length h"
  shows "excluded (validateTemplateSelection t h) = [h ! (length h - 2), h ! (length h - 1)]
       \<and> excluded (validateTemplateSelection t h) = drop (length h - 2) h
       \<and> \<not> valid (validateTemplateSelection (h ! (length h - 2)) h)
       \<and> \<not> valid (validateTemplateSelection (h ! (length h - 1)) h)
       \<and> (t \<in> set TEMPLATE_IDS \<and> t \<noteq> h ! (length h - 2) \<and> t \<noteq> h ! (length h - 1)
            \<longrightarrow> valid (validateTemplateSelection t h))
       \<and> (length h' < 2 \<longrightarrow> excluded (validateTemplateSelection t h') = h')"
proof -
  have two: "sliceLast 2 h = [h ! (length h - 2), h ! (length h - 1)]"
    using assms by (rule sliceLast_two)
  have short: "length h' < 2 \<longrightarrow> sliceLast 2 h' = h'"
    by (simp add: sliceLast_def)
  show ?thesis
    using two short by (simp add: validateTemplateSelection_def Let_def sliceLast_def)
qed

theorem validateTemplateSelection_excludes_last_two_witness:
  "excluded (validateTemplateSelection ''COMPASS'' [''ATLAS'', ''COMPASS'', ''CATALYST''])
     = [''COMPASS'', ''CATALYST'']
   \<and> \<not> valid (validateTemplateSelection ''COMPASS'' [''ATLAS'', ''COMPASS'', ''CATALYST''])
   \<and> \<not> valid (validateTemplateSelection ''CATALYST'' [''ATLAS'', ''COMPASS'', ''CATALYST''])
   \<and> valid (validateTemplateSelection ''ATLAS'' [''ATLAS'', ''COMPASS'', ''CATALYST''])
   \<and> excluded (validateTemplateSelection ''ATLAS'' [''PERSONA'']) = [''PERSONA'']"
proof -
  have len: "2 \<le> length [''ATLAS'', ''COMPASS'', ''CATALYST'']"
    by simp
  have mem: "''ATLAS'' \<in> set TEMPLATE_IDS"
    by (simp add: TEMPLATE_IDS_def)
  show ?thesis
    using validateTemplateSelection_excludes_last_two
      [OF len, of "''COMPASS''" "[''PERSONA'']"]
      validateTemplateSelection_excludes_last_two
      [OF len, of "''ATLAS''" "[''PERSONA'']"] mem
    by simp
qed


section \<open>Phrase extraction\<close>

lemma length_extractKeyPhrases:
  "length (extractKeyPhrases content) = length (keyWords content) - 4"
  by (simp add: extractKeyPhrases_def Let_def)

lemma length_allWindowsOfFour:
  "length (allWindowsOfFour ws) = length ws - 3"
  by (simp add: allWindowsOfFour_def)

lemma extractKeyPhrases_drops_last_window:
  "extractKeyPhrases content = butlast (allWindowsOfFour (keyWords content))"
proof -
  have "butlast [0 ..< length (keyWords content) - 3] = [0 ..< length (keyWords content) - 4]"
    by (simp add: butlast_conv_take)
  then show ?thesis
    by (simp add: extractKeyPhrases_def allWindowsOfFour_def Let_def map_butlast [symmetric])
qed

lemma keyWords_four_tokens:
  "keyWords ''alpha bravo charlie delta'' = [''alpha'', ''bravo'', ''charlie'', ''delta'']"
  by code_simp

text \<open>
  C2.  The claim says that \<open>n\<close> tokens give \<open>max (n - 3) 0\<close> phrases, one phrase for
  exactly four tokens.  The loop bound \<open>words.length - 4\<close> stops one window early
  (\<open>length_extractKeyPhrases\<close>, \<open>extractKeyPhrases_drops_last_window\<close>): the text
  below normalizes to four tokens and the extractor returns no phrase, where the windows
  of four tokens are the one phrase \<open>alpha bravo charlie delta\<close>.
\<close>

theorem extractKeyPhrases_four_tokens_no_phrase:
  "length (keyWords ''alpha bravo charlie delta'') = 4
   \<and> extractKeyPhrases ''alpha bravo charlie delta'' = []
   \<and> allWindowsOfFour (keyWords ''alpha bravo charlie delta'') = [''alpha bravo charlie delta'']"
  by (simp add: extractKeyPhrases_def allWindowsOfFour_def keyWords_four_tokens Let_def)


section \<open>Similarity and score bounds\<close>

lemma overlapRatio_bounds: "0 \<le> overlapRatio new ex \<and> overlapRatio new ex \<le> 1"
proof -
  have "length (filter (\<lambda>p. p \<in> set ex) new) \<le> length new"
    by (rule length_filter_le)
  also have "\<dots> \<le> max (length new) 1"
    by simp
  finally have "real (length (filter (\<lambda>p. p \<in> set ex) new)) \<le> real (max (length new) 1)"
    by (simp only: of_nat_le_iff)
  moreover have "0 < real (max (length new) 1)"
    by simp
  ultimately show ?thesis
    unfolding overlapRatio_def by (simp add: divide_le_eq)
qed

lemma keepMax_bounds:
  assumes "0 \<le> x" "x \<le> 1" "0 \<le> fst best" "fst best \<le> 1"
  shows "0 \<le> fst (keepMax x key best) \<and> fst (keepMax x key best) \<le> 1"
  using assms by (simp add: keepMax_def)

lemma fold_keepMax_bounds:
  assumes "\<And>x. x \<in> set xs \<Longrightarrow> 0 \<le> f x \<and> f x \<le> 1"
    and "0 \<le> fst best" "fst best \<le> 1"
  shows "0 \<le> fst (fold (\<lambda>x b. keepMax (f x) (g x) b) xs best)
       \<and> fst (fold (\<lambda>x b. keepMax (f x) (g x) b) xs best) \<le> 1"
  using assms
proof (induction xs arbitrary: best)
  case Nil
  then show ?case by simp
next
  case (Cons x xs)
  have "0 \<le> fst (keepMax (f x) (g x) best) \<and> fst (keepMax (f x) (g x) best) \<le> 1"
    using Cons.prems by (intro keepMax_bounds) simp_all
  then show ?case
    using Cons.IH [of "keepMax (f x) (g x) best"] Cons.prems(1) by simp
qed

lemma calculateSimilarity_bounds:
  "0 \<le> calculateSimilarity ec c key \<and> calculateSimilarity ec c key \<le> 1"
  using overlapRatio_bounds by (simp add: calculateSimilarity_def split: option.split)

lemma calculateOverallSimilarity_bounds:
  "0 \<le> fst (calculateOverallSimilarity ec c) \<and> fst (calculateOverallSimilarity ec c) \<le> 1"
  unfolding calculateOverallSimilarity_def
  by (rule fold_keepMax_bounds [where g = "\<lambda>key. key"])
     (simp_all add: calculateSimilarity_bounds)

lemma calculateOverallSimilarityOllama_bounds:
  "0 \<le> fst (calculateOverallSimilarityOllama ec c)
     \<and> fst (calculateOverallSimilarityOllama ec c) \<le> 1"
proof -
  have eq: "(\<lambda>(slug, existingPhrases) best.
               keepMax (overlapRatio new existingPhrases) slug best)
          = (\<lambda>x b. keepMax (overlapRatio new (snd x)) (fst x) b)" for new
    by (simp add: fun_eq_iff split: prod.split)
  show ?thesis
    unfolding calculateOverallSimilarityOllama_def Let_def eq
    by (rule fold_keepMax_bounds) (simp_all add: overlapRatio_bounds)
qed

lemma countFactsUsed_le: "countFactsUsed k c dps \<le> length dps"
  by (simp add: countFactsUsed_def)

lemma dataScore_bounds:
  "0 \<le> real (countFactsUsed k c dps) / real (max (length dps) 1)
    \<and> real (countFactsUsed k c dps) / real (max (length dps) 1) \<le> 1"
proof -
  have "countFactsUsed k c dps \<le> max (length dps) 1"
    using countFactsUsed_le [of k c dps] by simp
  then have "real (countFactsUsed k c dps) \<le> real (max (length dps) 1)"
    by (simp only: of_nat_le_iff)
  moreover have "0 < real (max (length dps) 1)"
    by simp
  ultimately show ?thesis
    by (simp add: divide_le_eq)
qed

lemma if_nonneg: "0 \<le> x \<Longrightarrow> 0 \<le> y \<Longrightarrow> (0::real) \<le> (if P then x else y)"
  by simp

lemma evaluateQuality_bounds: "0 \<le> evaluateQuality c b \<and> evaluateQuality c b \<le> 1"
proof
  show "0 \<le> evaluateQuality c b"
    unfolding evaluateQuality_def Let_def
    by (intro min.boundedI add_nonneg_nonneg if_nonneg) simp_all
  show "evaluateQuality c b \<le> 1"
    unfolding evaluateQuality_def Let_def by (rule min.cobounded2)
qed

lemma weighted_bounds:
  fixes a d i :: real
  assumes "0 \<le> a" "a \<le> 1" "0 \<le> d" "d \<le> 1" "0 \<le> i" "i \<le> 1"
  shows "0 \<le> a * (4 / 10) + d * (35 / 100) + i * (25 / 100)
       \<and> a * (4 / 10) + d * (35 / 100) + i * (25 / 100) \<le> 1"
  using assms by simp

lemma overallScore_evaluateDifferentiation:
  "overallScore (evaluateDifferentiation ec fp c b)
     = angleScore (evaluateDifferentiation ec fp c b) * (4 / 10)
     + dataScore (evaluateDifferentiation ec fp c b) * (35 / 100)
     + insightScore (evaluateDifferentiation ec fp c b) * (25 / 100)"
  by (simp add: evaluateDifferentiation_def Let_def)

lemma overallScore_evaluateDifferentiationOllama:
  "overallScore (evaluateDifferentiationOllama ec c b)
     = angleScore (evaluateDifferentiationOllama ec c b) * (4 / 10)
     + dataScore (evaluateDifferentiationOllama ec c b) * (35 / 100)
     + insightScore (evaluateDifferentiationOllama ec c b) * (25 / 100)"
  by (simp add: evaluateDifferentiationOllama_def Let_def)

lemma component_bounds_evaluateDifferentiation:
  "0 \<le> angleScore (evaluateDifferentiation ec fp c b)
   \<and> angleScore (evaluateDifferentiation ec fp c b) \<le> 1
   \<and> 0 \<le> dataScore (evaluateDifferentiation ec fp c b)
   \<and> dataScore (evaluateDifferentiation ec fp c b) \<le> 1
   \<and> 0 \<le> insightScore (evaluateDifferentiation ec fp c b)
   \<and> insightScore (evaluateDifferentiation ec fp c b) \<le> 1"
  using calculateOverallSimilarity_bounds [of ec c] dataScore_bounds [of 50 c "dataPoints b"]
  by (simp add: evaluateDifferentiation_def Let_def)

lemma component_bounds_evaluateDifferentiationOllama:
  "0 \<le> angleScore (evaluateDifferentiationOllama ec c b)
   \<and> angleScore (evaluateDifferentiationOllama ec c b) \<le> 1
   \<and> 0 \<le> dataScore (evaluateDifferentiationOllama ec c b)
   \<and> dataScore (evaluateDifferentiationOllama ec c b) \<le> 1
   \<and> 0 \<le> insightScore (evaluateDifferentiationOllama ec c b)
   \<and> insightScore (evaluateDifferentiationOllama ec c b) \<le> 1"
  using calculateOverallSimilarityOllama_bounds [of ec c]
    dataScore_bounds [of 30 c "dataPoints b"]
  by (simp add: evaluateDifferentiationOllama_def Let_def)

text \<open>
  C3 (as amended).  Both generators compute \<open>angleScore = 1 - maxSimilarity\<close> and
  \<open>dataScore = uniqueFactCount / max (|dataPoints|) 1\<close>.  The Ollama generator sets
  \<open>insightScore\<close> to 1 when the lower-cased text contains the first 30 characters of the
  lower-cased insight and to 1/2 otherwise; the Anthropic generator looks for the first 50
  characters and sets 1 or 0.
\<close>

theorem differentiation_component_scores:
  "angleScore (evaluateDifferentiationOllama ec c b)
     = 1 - fst (calculateOverallSimilarityOllama ec c)
   \<and> dataScore (evaluateDifferentiationOllama ec c b)
     = real (uniqueFactCount (evaluateDifferentiationOllama ec c b))
         / real (max (length (dataPoints b)) 1)
   \<and> insightScore (evaluateDifferentiationOllama ec c b)
     = (if js_includes (toLowerCase c) (take 30 (toLowerCase (uniqueInsight b)))
        then 1 else 1 / 2)
   \<and> angleScore (evaluateDifferentiation ec fp c b)
     = 1 - fst (calculateOverallSimilarity ec c)
   \<and> dataScore (evaluateDifferentiation ec fp c b)
     = real (uniqueFactCount (evaluateDifferentiation ec fp c b))
         / real (max (length (dataPoints b)) 1)
   \<and> insightScore (evaluateDifferentiation ec fp c b)
     = (if js_includes (toLowerCase c) (take 50 (toLowerCase (uniqueInsight b)))
        then 1 else 0)"
  by (simp add: evaluateDifferentiationOllama_def evaluateDifferentiation_def Let_def)

text \<open>
  C3 as stated fails on \<open>ContentGenerator.evaluateDifferentiation\<close>: a text without the
  insight scores 0 there, not 1/2.
\<close>

theorem evaluateDifferentiation_insight_counterexample:
  "insightScore (evaluateDifferentiation [] [] ''Plain body text.'' sampleBrief)
     \<noteq> (if js_includes (toLowerCase ''Plain body text.'')
               (take 30 (toLowerCase (uniqueInsight sampleBrief)))
         then 1 else 1 / 2)"
proof -
  have "\<not> js_includes (toLowerCase ''Plain body text.'')
            (take 30 (toLowerCase (uniqueInsight sampleBrief)))"
    by code_simp
  moreover have "\<not> js_includes (toLowerCase ''Plain body text.'')
            (take 50 (toLowerCase (uniqueInsight sampleBrief)))"
    by code_simp
  ultimately show ?thesis
    by (simp add: evaluateDifferentiation_def Let_def)
qed

text \<open>
  C7.  For every text, brief and corpus, the overall differentiation score of either
  generator is the weighted sum \<open>0.4 * angle + 0.35 * data + 0.25 * insight\<close> and lies in
  the unit interval, and the additive quality score lies in the unit interval.
\<close>

theorem scores_within_unit_interval:
  "overallScore (evaluateDifferentiation ec fp c b)
     = angleScore (evaluateDifferentiation ec fp c b) * (4 / 10)
     + dataScore (evaluateDifferentiation ec fp c b) * (35 / 100)
     + insightScore (evaluateDifferentiation ec fp c b) * (25 / 100)
   \<and> 0 \<le> overallScore (evaluateDifferentiation ec fp c b)
   \<and> overallScore (evaluateDifferentiation ec fp c b) \<le> 1
   \<and> overallScore (evaluateDifferentiationOllama ec c b)
     = angleScore (evaluateDifferentiationOllama ec c b) * (4 / 10)
     + dataScore (evaluateDifferentiationOllama ec c b) * (35 / 100)
     + insightScore (evaluateDifferentiationOllama ec c b) * (25 / 100)
   \<and> 0 \<le> overallScore (evaluateDifferentiationOllama ec c b)
   \<and> overallScore (evaluateDifferentiationOllama ec c b) \<le> 1
   \<and> 0 \<le> evaluateQuality c b
   \<and> evaluateQuality c b \<le> 1"
proof -
  have cg: "0 \<le> overallScore (evaluateDifferentiation ec fp c b)
          \<and> overallScore (evaluateDifferentiation ec fp c b) \<le> 1"
    unfolding overallScore_evaluateDifferentiation
    using component_bounds_evaluateDifferentiation [of ec fp c b]
    by (intro weighted_bounds) simp_all
  have ol: "0 \<le> overallScore (evaluateDifferentiationOllama ec c b)
          \<and> overallScore (evaluateDifferentiationOllama ec c b) \<le> 1"
    unfolding overallScore_evaluateDifferentiationOllama
    using component_bounds_evaluateDifferentiationOllama [of ec c b]
    by (intro weighted_bounds) simp_all
  have q: "0 \<le> evaluateQuality c b \<and> evaluateQuality c b \<le> 1"
    by (rule evaluateQuality_bounds)
  show ?thesis
    using cg ol q overallScore_evaluateDifferentiation [of ec fp c b]
      overallScore_evaluateDifferentiationOllama [of ec c b]
    by blast
qed

section \<open>Angle exhaustion\<close>

lemma isUsedAngle_registerAngle_same: "isUsedAngle (registerAngle e t a) t a"
  by (simp add: isUsedAngle_def registerAngle_def Let_def)

lemma isUsedAngle_registerAngle_mono:
  "isUsedAngle e t a \<Longrightarrow> isUsedAngle (registerAngle e t' a') t a"
  by (auto simp: isUsedAngle_def registerAngle_def Let_def split: option.splits)

lemma isUsedAngle_fold_mono:
  "isUsedAngle e t a \<Longrightarrow>
     isUsedAngle (fold (\<lambda>(t', a') e'. registerAngle e' t' a') calls e) t a"
proof (induction calls arbitrary: e)
  case Nil
  then show ?case by simp
next
  case (Cons call calls)
  obtain t' a' where call: "call = (t', a')"
    by (cases call)
  have "isUsedAngle (registerAngle e t' a') t a"
    using Cons.prems by (rule isUsedAngle_registerAngle_mono)
  then show ?case
    using Cons.IH [of "registerAngle e t' a'"] call by simp
qed

lemma isUsedAngle_fold_registered:
  "(t, a) \<in> set calls \<Longrightarrow>
     isUsedAngle (fold (\<lambda>(t', a') e'. registerAngle e' t' a') calls e) t a"
proof (induction calls arbitrary: e)
  case Nil
  then show ?case by simp
next
  case (Cons call calls)
  obtain t' a' where call: "call = (t', a')"
    by (cases call)
  show ?case
  proof (cases "call = (t, a)")
    case True
    then have "isUsedAngle (registerAngle e t' a') t a"
      using call by (simp add: isUsedAngle_registerAngle_same)
    then show ?thesis
      using isUsedAngle_fold_mono [of "registerAngle e t' a'" t a calls] call by simp
  next
    case False
    then have "(t, a) \<in> set calls"
      using Cons.prems by simp
    then show ?thesis
      using Cons.IH [of "registerAngle e t' a'"] call by simp
  qed
qed

lemma getAvailableAngles_filter:
  "getAvailableAngles e t i = filter (\<lambda>a. \<not> isUsedAngle e t a) (allAngles i)"
  by (simp add: getAvailableAngles_def isUsedAngle_def Let_def split: option.split)

lemma generateBrief_fresh_topic:
  "generateBrief echoClient (\<lambda>s. Some []) (\<lambda>s. Some []) newEngine ''X'' ''kw'' informational
     ''agents''
   = Inr (\<lparr> topic = ''X'', targetKeyword = ''kw'', secondaryKeywords = [],
            searchIntent = informational, audience = ''agents'',
            contentAngle = ''beginner-guide'', differentiators = [], dataPoints = [],
            uniqueInsight = ''ok'', contentLength = long \<rparr>,
          registerAngle newEngine ''X'' ''beginner-guide'')"
  by (simp add: generateBrief_def getAvailableAngles_def allAngles_def informationalAngles_def
      newEngine_def echoClient_def Let_def)

text \<open>
  C8.  Once \<open>registerAngle\<close> has been called for a topic with every angle of the list of
  an intent (among any other calls, in any order, from any engine state),
  \<open>getAvailableAngles\<close> for that topic and intent is empty, and \<open>generateBrief\<close> raises
  the error that all content angles are exhausted for the topic, before any call to the
  model and without a second try.
\<close>

theorem angles_exhausted:
  assumes "\<forall>a \<in> set (allAngles intent). (t, a) \<in> set calls"
  shows "getAvailableAngles (fold (\<lambda>(t', a') e'. registerAngle e' t' a') calls engine) t intent
           = []
       \<and> generateBrief client parseStrings parseDataPoints
            (fold (\<lambda>(t', a') e'. registerAngle e' t' a') calls engine) t keyword intent aud
           = Inl (Error (''All content angles exhausted for topic: '' @ t
                         @ ''. Consider a new topic cluster.''))"
proof -
  let ?e = "fold (\<lambda>(t', a') e'. registerAngle e' t' a') calls engine"
  have "\<forall>a \<in> set (allAngles intent). isUsedAngle ?e t a"
    using assms isUsedAngle_fold_registered by blast
  then have none: "getAvailableAngles ?e t intent = []"
    unfolding getAvailableAngles_filter by (simp add: filter_empty_conv)
  then show ?thesis
    by (simp add: generateBrief_def exhaustedMessage_def)
qed

theorem angles_exhausted_witness:
  "length (allAngles informational) = 10
   \<and> getAvailableAngles
       (fold (\<lambda>(t', a') e'. registerAngle e' t' a')
          (map (Pair ''X'') (allAngles informational)) newEngine)
       ''X'' informational = []
   \<and> generateBrief echoClient (\<lambda>s. Some []) (\<lambda>s. Some [])
       (fold (\<lambda>(t', a') e'. registerAngle e' t' a')
          (map (Pair ''X'') (allAngles informational)) newEngine)
       ''X'' ''kw'' informational ''agents''
     = Inl (Error ''All content angles exhausted for topic: X. Consider a new topic cluster.'')"
proof -
  have h: "\<forall>a \<in> set (allAngles informational).
             (''X'', a) \<in> set (map (Pair ''X'') (allAngles informational))"
    by simp
  have n: "length (allAngles informational) = 10"
    by (simp add: allAngles_def informationalAngles_def)
  show ?thesis
    using angles_exhausted [OF h, of newEngine echoClient "\<lambda>s. Some []" "\<lambda>s. Some []"
        "''kw''" "''agents''"] n
    by simp
qed


section \<open>Cover photo allocation\<close>

lemma firstUnused_Some:
  "firstUnused used ps = Some p \<Longrightarrow> p \<in> set ps \<and> p \<notin> set BLOCKED_PHOTO_IDS \<and> p \<notin> set used"
  by (induction ps) (auto split: if_splits)

lemma firstUnused_None_iff:
  "firstUnused used ps = None \<longleftrightarrow> (\<forall>p \<in> set ps. p \<in> set BLOCKED_PHOTO_IDS \<or> p \<in> set used)"
  by (induction ps) auto

lemma firstUnused_append:
  "firstUnused used (xs @ ys)
     = (case firstUnused used xs of Some p \<Rightarrow> Some p | None \<Rightarrow> firstUnused used ys)"
  by (induction xs) auto

lemma firstUnused_first:
  "firstUnused used ps = Some p \<Longrightarrow>
     \<exists>before after. ps = before @ p # after
        \<and> (\<forall>q \<in> set before. q \<in> set BLOCKED_PHOTO_IDS \<or> q \<in> set used)"
proof (induction ps)
  case Nil
  then show ?case by simp
next
  case (Cons x xs)
  show ?case
  proof (cases "x \<notin> set BLOCKED_PHOTO_IDS \<and> x \<notin> set used")
    case True
    then have "p = x"
      using Cons.prems by simp
    then have "x # xs = [] @ p # xs \<and> (\<forall>q \<in> set []. q \<in> set BLOCKED_PHOTO_IDS \<or> q \<in> set used)"
      by simp
    then show ?thesis
      by blast
  next
    case False
    then have "firstUnused used xs = Some p"
      using Cons.prems by (auto split: if_splits)
    then obtain before after where ba: "xs = before @ p # after"
      "\<forall>q \<in> set before. q \<in> set BLOCKED_PHOTO_IDS \<or> q \<in> set used"
      using Cons.IH by blast
    then have "x # xs = (x # before) @ p # after
        \<and> (\<forall>q \<in> set (x # before). q \<in> set BLOCKED_PHOTO_IDS \<or> q \<in> set used)"
      using False by auto
    then show ?thesis
      by blast
  qed
qed

lemma photosOfCategory_bucket:
  "cat \<noteq> ''constructor'' \<Longrightarrow> photosOfCategory cat = Inr (photoBucket cat)"
  by (simp add: photosOfCategory_def photoBucket_def split: option.split)

lemma library_keys:
  "map fst COVER_PHOTO_LIBRARY
     = [''nyc'', ''brooklyn'', ''manhattan'', ''queens'', ''seattle'', ''real-estate'']"
  by (simp add: COVER_PHOTO_LIBRARY_def)

lemma photosOfCategory_constructor:
  "photosOfCategory ''constructor'' = Inl (TypeError ''photos is not iterable'')"
proof -
  have "''constructor'' \<notin> set (map fst COVER_PHOTO_LIBRARY)"
    unfolding library_keys by simp
  then have "map_of COVER_PHOTO_LIBRARY ''constructor'' = None"
    by (simp add: map_of_eq_None_iff)
  then show ?thesis
    by (simp add: photosOfCategory_def)
qed

lemma scanCategories_buckets:
  "\<forall>cat \<in> set cats. cat \<noteq> ''constructor'' \<Longrightarrow>
     scanCategories used cats = Inr (firstUnused used (concat (map photoBucket cats)))"
  by (induction cats) (auto simp: photosOfCategory_bucket firstUnused_append split: option.split)

lemma scanCategories_chain:
  "scanCategories used (categoryChain category)
     = (if hd (categoryChain category) = ''constructor''
        then Inl (TypeError ''photos is not iterable'')
        else Inr (firstUnused used (chainPhotos category)))"
proof (cases "hd (categoryChain category) = ''constructor''")
  case True
  then show ?thesis
    by (simp add: categoryChain_def photosOfCategory_constructor)
next
  case False
  then have "\<forall>cat \<in> set (categoryChain category). cat \<noteq> ''constructor''"
    by (simp add: categoryChain_def)
  then show ?thesis
    using False by (simp add: scanCategories_buckets chainPhotos_def)
qed

lemma first_nyc_photo_available:
  "''photo-1534430480872-3498386e7856'' \<in> set allNonBlockedPhotos"
  by (simp add: allNonBlockedPhotos_def COVER_PHOTO_LIBRARY_def BLOCKED_PHOTO_IDS_def)

lemma randomPhoto_not_blocked:
  assumes "0 \<le> rnd" "rnd < 1"
  shows "randomPhoto rnd \<in> set allNonBlockedPhotos \<and> randomPhoto rnd \<notin> set BLOCKED_PHOTO_IDS"
proof -
  let ?n = "length allNonBlockedPhotos"
  have pos: "0 < ?n"
    using first_nyc_photo_available by (cases allNonBlockedPhotos) auto
  have lo: "0 \<le> \<lfloor>rnd * real ?n\<rfloor>"
    using assms(1) by simp
  have "rnd * real ?n < real ?n"
    using assms(2) pos by simp
  then have hi: "\<lfloor>rnd * real ?n\<rfloor> < int ?n"
    by (simp add: floor_less_iff)
  have "randomPhoto rnd = allNonBlockedPhotos ! nat \<lfloor>rnd * real ?n\<rfloor>"
    using lo hi by (simp add: randomPhoto_def Let_def)
  moreover have "nat \<lfloor>rnd * real ?n\<rfloor> < ?n"
    by (subst nat_less_iff [OF lo]) (rule hi)
  ultimately have mem: "randomPhoto rnd \<in> set allNonBlockedPhotos"
    by simp
  then show ?thesis
    by (simp add: allNonBlockedPhotos_def)
qed

lemma getUniqueCoverPhoto_frame: "snd (getUniqueCoverPhoto reg category rnd) = reg"
  by (simp add: getUniqueCoverPhoto_def split: sum.split option.split)

lemma getUniqueCoverPhoto_result:
  "fst (getUniqueCoverPhoto reg category rnd)
     = (if hd (categoryChain category) = ''constructor''
        then Inl (TypeError ''photos is not iterable'')
        else (case firstUnused (usedCoverPhotos (registryData reg)) (chainPhotos category) of
                Some p \<Rightarrow> Inr (photoUrl p)
              | None \<Rightarrow> Inr (photoUrl (randomPhoto rnd))))"
  by (simp add: getUniqueCoverPhoto_def scanCategories_chain split: option.split)

lemma getUniqueCoverPhoto_never_blocked:
  assumes "0 \<le> rnd" "rnd < 1" "fst (getUniqueCoverPhoto reg category rnd) = Inr url"
  shows "\<exists>p. url = photoUrl p \<and> p \<notin> set BLOCKED_PHOTO_IDS
          \<and> (\<forall>q. firstUnused (usedCoverPhotos (registryData reg)) (chainPhotos category) = Some q
                 \<longrightarrow> p = q \<and> p \<notin> set (usedCoverPhotos (registryData reg)))"
proof (cases "firstUnused (usedCoverPhotos (registryData reg)) (chainPhotos category)")
  case None
  then have "url = photoUrl (randomPhoto rnd)"
    using assms(3) unfolding getUniqueCoverPhoto_result by (simp split: if_splits)
  then show ?thesis
    using randomPhoto_not_blocked [OF assms(1,2)] None by auto
next
  case (Some q)
  then have "url = photoUrl q"
    using assms(3) unfolding getUniqueCoverPhoto_result by (simp split: if_splits)
  then show ?thesis
    using firstUnused_Some [OF Some] Some by auto
qed


lemma nyc_photo_in_chain:
  "''photo-1534430480872-3498386e7856'' \<in> set (chainPhotos category)"
  by (simp add: chainPhotos_def categoryChain_def photoBucket_def COVER_PHOTO_LIBRARY_def)

lemma getUniqueCoverPhoto_first_free:
  assumes "hd (categoryChain category) \<noteq> ''constructor''" "0 \<le> rnd" "rnd < 1"
  shows "\<exists>p. fst (getUniqueCoverPhoto reg category rnd) = Inr (photoUrl p)
          \<and> p \<notin> set BLOCKED_PHOTO_IDS
          \<and> ((\<exists>q \<in> set (chainPhotos category).
                 q \<notin> set (usedCoverPhotos (registryData reg)) \<and> q \<notin> set BLOCKED_PHOTO_IDS)
               \<longrightarrow> p \<notin> set (usedCoverPhotos (registryData reg))
                 \<and> (\<exists>before after. chainPhotos category = before @ p # after
                       \<and> (\<forall>q \<in> set before. q \<in> set BLOCKED_PHOTO_IDS
                              \<or> q \<in> set (usedCoverPhotos (registryData reg)))))"
proof (cases "firstUnused (usedCoverPhotos (registryData reg)) (chainPhotos category)")
  case None
  then have "fst (getUniqueCoverPhoto reg category rnd) = Inr (photoUrl (randomPhoto rnd))"
    using assms(1) unfolding getUniqueCoverPhoto_result by simp
  moreover have "\<not> (\<exists>q \<in> set (chainPhotos category).
      q \<notin> set (usedCoverPhotos (registryData reg)) \<and> q \<notin> set BLOCKED_PHOTO_IDS)"
    using None by (auto simp: firstUnused_None_iff)
  ultimately show ?thesis
    using randomPhoto_not_blocked [OF assms(2,3)] by blast
next
  case (Some p)
  then have "fst (getUniqueCoverPhoto reg category rnd) = Inr (photoUrl p)"
    using assms(1) unfolding getUniqueCoverPhoto_result by simp
  then show ?thesis
    using firstUnused_Some [OF Some] firstUnused_first [OF Some] by blast
qed

text \<open>
  C1.  The claim says that for every category hint the returned id is the first photo of
  the chain that is neither used nor blocked.  For the hint \<open>constructor\<close> and an empty
  used-set the first such photo is the first one of the \<open>nyc\<close> bucket, and the call throws
  a \<open>TypeError\<close> instead of returning its URL.  For every other hint the claim holds
  (\<open>getUniqueCoverPhoto_first_free\<close>), and no URL that is returned carries a blocked id
  (\<open>getUniqueCoverPhoto_never_blocked\<close>).
\<close>

theorem getUniqueCoverPhoto_constructor_throws:
  "fst (getUniqueCoverPhoto emptyRegistry (Some ''constructor'') 0)
     = Inl (TypeError ''photos is not iterable'')
   \<and> firstUnused (usedCoverPhotos (registryData emptyRegistry)) (chainPhotos (Some ''constructor''))
     = Some ''photo-1534430480872-3498386e7856''"
proof -
  have hint: "normalizeCategory ''constructor'' = ''constructor''"
    by code_simp
  then have "fst (getUniqueCoverPhoto emptyRegistry (Some ''constructor'') 0)
     = Inl (TypeError ''photos is not iterable'')"
    unfolding getUniqueCoverPhoto_result by (simp add: categoryChain_def)
  moreover have "firstUnused (usedCoverPhotos (registryData emptyRegistry))
       (chainPhotos (Some ''constructor''))
     = Some ''photo-1534430480872-3498386e7856''"
    by (simp add: emptyRegistry_def chainPhotos_def categoryChain_def hint photoBucket_def
        COVER_PHOTO_LIBRARY_def BLOCKED_PHOTO_IDS_def)
  ultimately show ?thesis
    by simp
qed

text \<open>
  The registry after a call is the registry before it, and with a free photo in the chain
  the second call gives the result of the first, whatever the random numbers drawn.
\<close>

lemma getUniqueCoverPhoto_does_not_mutate:
  "snd (getUniqueCoverPhoto reg category rnd) = reg
   \<and> usedCoverPhotos (registryData (snd (getUniqueCoverPhoto reg category rnd)))
       = usedCoverPhotos (registryData reg)
   \<and> publishedBlogs (registryData (snd (getUniqueCoverPhoto reg category rnd)))
       = publishedBlogs (registryData reg)
   \<and> ((\<exists>p \<in> set (chainPhotos category).
          p \<notin> set (usedCoverPhotos (registryData reg)) \<and> p \<notin> set BLOCKED_PHOTO_IDS)
        \<longrightarrow> fst (getUniqueCoverPhoto (snd (getUniqueCoverPhoto reg category rnd)) category rnd')
            = fst (getUniqueCoverPhoto reg category rnd))
   \<and> (hd (categoryChain category) \<noteq> ''constructor''
        \<longrightarrow> (\<exists>url. fst (getUniqueCoverPhoto reg category rnd) = Inr url))"
proof -
  have frame: "snd (getUniqueCoverPhoto reg category rnd) = reg"
    by (rule getUniqueCoverPhoto_frame)
  have url: "\<exists>url. fst (getUniqueCoverPhoto reg category rnd) = Inr url"
    if "hd (categoryChain category) \<noteq> ''constructor''"
    using that unfolding getUniqueCoverPhoto_result by (simp split: option.split)
  have same: "fst (getUniqueCoverPhoto reg category rnd') = fst (getUniqueCoverPhoto reg category rnd)"
    if "\<exists>p \<in> set (chainPhotos category).
          p \<notin> set (usedCoverPhotos (registryData reg)) \<and> p \<notin> set BLOCKED_PHOTO_IDS"
  proof -
    from that have "firstUnused (usedCoverPhotos (registryData reg)) (chainPhotos category) \<noteq> None"
      by (auto simp: firstUnused_None_iff)
    then show ?thesis
      unfolding getUniqueCoverPhoto_result by auto
  qed
  show ?thesis
    using frame same url by simp
qed

text \<open>
  Reserving is what takes a photo out: the URL of a library photo gives its id back, the id
  is pushed on the used list, and the next call finds another photo.
\<close>

lemma library_photo_ids: "list_all isPhotoId (concat (map snd COVER_PHOTO_LIBRARY))"
  by code_simp

lemma photoUrl_inject: "photoUrl p = photoUrl q \<Longrightarrow> p = q"
  by (simp add: photoUrl_def)

lemma question_mark_ends_id: "\<not> isPhotoIdChar CHR ''?''"
  by (simp add: isPhotoIdChar_def asciiLower_def asciiUpper_def asciiDigits_def)

lemma matchPhotoId_photoUrl:
  assumes "isPhotoId p"
  shows "matchPhotoId (photoUrl p) = Some p"
proof -
  from assms obtain rest where p: "p = ''photo-'' @ rest"
    by (auto simp: isPhotoId_def prefix_def)
  then have rest: "rest \<noteq> []" "\<forall>c \<in> set rest. isPhotoIdChar c"
    using assms by (simp_all add: isPhotoId_def list_all_iff)
  have "takeWhile isPhotoIdChar (rest @ ''?w=1200&auto=format&fit=crop'') = rest"
    using rest(2) question_mark_ends_id by (simp add: takeWhile_append2)
  then show ?thesis
    using rest(1) by (simp add: photoUrl_def p)
qed

lemma photoBucket_in_library:
  "set (photoBucket cat) \<subseteq> set (concat (map snd COVER_PHOTO_LIBRARY))"
proof (cases "map_of COVER_PHOTO_LIBRARY cat")
  case None
  then show ?thesis by (simp add: photoBucket_def)
next
  case (Some photos)
  then have "(cat, photos) \<in> set COVER_PHOTO_LIBRARY"
    by (rule map_of_SomeD)
  then have "photos \<in> snd ` set COVER_PHOTO_LIBRARY"
    by force
  then show ?thesis
    using Some by (auto simp: photoBucket_def)
qed

lemma chainPhotos_are_ids: "p \<in> set (chainPhotos category) \<Longrightarrow> isPhotoId p"
proof -
  assume "p \<in> set (chainPhotos category)"
  then obtain cat where "p \<in> set (photoBucket cat)"
    by (auto simp: chainPhotos_def)
  then have "p \<in> set (concat (map snd COVER_PHOTO_LIBRARY))"
    using photoBucket_in_library by blast
  then show ?thesis
    using library_photo_ids by (simp only: list_all_iff)
qed

lemma reserveCoverPhoto_photoUrl:
  assumes "isPhotoId p"
  shows "usedCoverPhotos (registryData (reserveCoverPhoto reg (photoUrl p)))
           = pushUnlessPresent p (usedCoverPhotos (registryData reg))
       \<and> publishedBlogs (registryData (reserveCoverPhoto reg (photoUrl p)))
           = publishedBlogs (registryData reg)"
  using matchPhotoId_photoUrl [OF assms]
  by (simp add: reserveCoverPhoto_def pushUnlessPresent_def)

lemma getUniqueCoverPhoto_pair:
  "getUniqueCoverPhoto reg category rnd = (fst (getUniqueCoverPhoto reg category rnd), reg)"
  using getUniqueCoverPhoto_frame [of reg category rnd]
  by (cases "getUniqueCoverPhoto reg category rnd") simp

lemma getUniqueCoverPhoto_consumed_by_reserve:
  assumes hint: "hd (categoryChain category) \<noteq> ''constructor''"
    and free: "\<exists>q \<in> set (chainPhotos category).
                 q \<notin> set (usedCoverPhotos (registryData reg)) \<and> q \<notin> set BLOCKED_PHOTO_IDS"
  shows "\<exists>p. getUniqueCoverPhoto reg category rnd = (Inr (photoUrl p), reg)
          \<and> getUniqueCoverPhoto (snd (getUniqueCoverPhoto reg category rnd)) category rnd'
              = (Inr (photoUrl p), reg)
          \<and> p \<notin> set (usedCoverPhotos (registryData reg))
          \<and> usedCoverPhotos (registryData (reserveCoverPhoto reg (photoUrl p)))
              = usedCoverPhotos (registryData reg) @ [p]
          \<and> ((\<exists>q \<in> set (chainPhotos category).
                 q \<notin> set (usedCoverPhotos (registryData (reserveCoverPhoto reg (photoUrl p))))
                 \<and> q \<notin> set BLOCKED_PHOTO_IDS)
               \<longrightarrow> (\<exists>p'. p' \<noteq> p
                     \<and> fst (getUniqueCoverPhoto (reserveCoverPhoto reg (photoUrl p)) category rnd')
                         = Inr (photoUrl p')))"
proof -
  let ?used = "usedCoverPhotos (registryData reg)"
  from free have "firstUnused ?used (chainPhotos category) \<noteq> None"
    by (auto simp: firstUnused_None_iff)
  then obtain p where p: "firstUnused ?used (chainPhotos category) = Some p"
    by auto
  have first: "fst (getUniqueCoverPhoto reg category r) = Inr (photoUrl p)" for r
    using hint p unfolding getUniqueCoverPhoto_result by simp
  have call: "getUniqueCoverPhoto reg category r = (Inr (photoUrl p), reg)" for r
    using getUniqueCoverPhoto_pair [of reg category r] first [of r] by simp
  have props: "p \<in> set (chainPhotos category)" "p \<notin> set ?used"
    using firstUnused_Some [OF p] by simp_all
  have reserved: "usedCoverPhotos (registryData (reserveCoverPhoto reg (photoUrl p))) = ?used @ [p]"
    using reserveCoverPhoto_photoUrl [OF chainPhotos_are_ids [OF props(1)], of reg] props(2)
    by (simp add: pushUnlessPresent_def)
  have next_call: "\<exists>p'. p' \<noteq> p
        \<and> fst (getUniqueCoverPhoto (reserveCoverPhoto reg (photoUrl p)) category rnd')
            = Inr (photoUrl p')"
    if "\<exists>q \<in> set (chainPhotos category).
          q \<notin> set (usedCoverPhotos (registryData (reserveCoverPhoto reg (photoUrl p))))
          \<and> q \<notin> set BLOCKED_PHOTO_IDS"
  proof -
    let ?r = "reserveCoverPhoto reg (photoUrl p)"
    from that have "firstUnused (usedCoverPhotos (registryData ?r)) (chainPhotos category) \<noteq> None"
      by (auto simp: firstUnused_None_iff)
    then obtain p' where p': "firstUnused (usedCoverPhotos (registryData ?r)) (chainPhotos category)
        = Some p'"
      by auto
    have "p' \<notin> set (usedCoverPhotos (registryData ?r))"
      using firstUnused_Some [OF p'] by simp
    then have "p' \<noteq> p"
      using reserved by auto
    moreover have "fst (getUniqueCoverPhoto ?r category rnd') = Inr (photoUrl p')"
      using hint p' unfolding getUniqueCoverPhoto_result by simp
    ultimately show ?thesis
      by blast
  qed
  have second: "getUniqueCoverPhoto (snd (getUniqueCoverPhoto reg category rnd)) category rnd'
      = (Inr (photoUrl p), reg)"
    using call [of rnd] call [of rnd'] by simp
  have "getUniqueCoverPhoto reg category rnd = (Inr (photoUrl p), reg)
          \<and> getUniqueCoverPhoto (snd (getUniqueCoverPhoto reg category rnd)) category rnd'
              = (Inr (photoUrl p), reg)
          \<and> p \<notin> set (usedCoverPhotos (registryData reg))
          \<and> usedCoverPhotos (registryData (reserveCoverPhoto reg (photoUrl p)))
              = usedCoverPhotos (registryData reg) @ [p]
          \<and> ((\<exists>q \<in> set (chainPhotos category).
                 q \<notin> set (usedCoverPhotos (registryData (reserveCoverPhoto reg (photoUrl p))))
                 \<and> q \<notin> set BLOCKED_PHOTO_IDS)
               \<longrightarrow> (\<exists>p'. p' \<noteq> p
                     \<and> fst (getUniqueCoverPhoto (reserveCoverPhoto reg (photoUrl p)) category rnd')
                         = Inr (photoUrl p')))"
    using call [of rnd] second props(2) reserved next_call by (intro conjI impI)
  then show ?thesis
    by (rule exI)
qed

lemma reserve_worked_example:
  "fst (getUniqueCoverPhoto emptyRegistry (Some ''queens'') 0)
     = Inr (photoUrl ''photo-1570168007204-dfb528c6958f'')
   \<and> usedCoverPhotos (registryData
        (reserveCoverPhoto emptyRegistry (photoUrl ''photo-1570168007204-dfb528c6958f'')))
     = [''photo-1570168007204-dfb528c6958f'']
   \<and> fst (getUniqueCoverPhoto
        (reserveCoverPhoto emptyRegistry (photoUrl ''photo-1570168007204-dfb528c6958f''))
        (Some ''queens'') 0)
     = Inr (photoUrl ''photo-1583608205776-bfd35f0d9f83'')"
  by code_simp

text \<open>
  C10.  The claim says that a call leaves the used photos and the published blogs as they
  are, and that whenever the priority chain holds a photo that is neither used nor blocked,
  two successive calls with the same category return the same URL.  For the hint
  \<open>constructor\<close> on the empty registry the first \<open>nyc\<close> photo is in the chain and free, the
  registry is indeed unchanged, and both calls throw a \<open>TypeError\<close>: no URL is returned.
  For every other hint both calls return the URL of the first free photo, and only
  reserving it makes the next call return another one
  (\<open>getUniqueCoverPhoto_consumed_by_reserve\<close>).
\<close>

theorem getUniqueCoverPhoto_twice_constructor_throws:
  "''photo-1534430480872-3498386e7856'' \<in> set (chainPhotos (Some ''constructor''))
   \<and> ''photo-1534430480872-3498386e7856'' \<notin> set (usedCoverPhotos (registryData emptyRegistry))
   \<and> ''photo-1534430480872-3498386e7856'' \<notin> set BLOCKED_PHOTO_IDS
   \<and> getUniqueCoverPhoto emptyRegistry (Some ''constructor'') 0
       = (Inl (TypeError ''photos is not iterable''), emptyRegistry)
   \<and> getUniqueCoverPhoto (snd (getUniqueCoverPhoto emptyRegistry (Some ''constructor'') 0))
        (Some ''constructor'') (1 / 2)
       = (Inl (TypeError ''photos is not iterable''), emptyRegistry)"
proof -
  have "normalizeCategory ''constructor'' = ''constructor''"
    by code_simp
  then have hint: "hd (categoryChain (Some ''constructor'')) = ''constructor''"
    by (simp add: categoryChain_def)
  have call: "getUniqueCoverPhoto emptyRegistry (Some ''constructor'') r
      = (Inl (TypeError ''photos is not iterable''), emptyRegistry)" for r
    using getUniqueCoverPhoto_pair [of emptyRegistry "Some ''constructor''" r] hint
    unfolding getUniqueCoverPhoto_result by simp
  have free: "''photo-1534430480872-3498386e7856'' \<notin> set (usedCoverPhotos (registryData emptyRegistry))
      \<and> ''photo-1534430480872-3498386e7856'' \<notin> set BLOCKED_PHOTO_IDS"
    by (simp add: emptyRegistry_def BLOCKED_PHOTO_IDS_def)
  show ?thesis
    using nyc_photo_in_chain [of "Some ''constructor''"] free call [of 0] call [of "1 / 2"]
    by simp
qed

section \<open>Registering a blog\<close>

lemma hasSlug_iff:
  "hasSlug reg s \<longleftrightarrow>
     (\<exists>blog \<in> set (publishedBlogs (registryData reg)). normalizeSlug (slug blog) = normalizeSlug s)"
  by (simp add: hasSlug_def list_ex_iff)

lemma hasSlug_cong:
  "normalizeSlug v = normalizeSlug s \<Longrightarrow> hasSlug reg v = hasSlug reg s"
  by (simp add: hasSlug_iff)

lemma hasSlug_registerBlog: "hasSlug (registerBlog reg blog) (slug blog)"
  by (auto simp: registerBlog_def hasSlug_iff Let_def)

lemma publishedBlogs_registerBlog_known:
  "hasSlug reg (slug blog) \<Longrightarrow>
     publishedBlogs (registryData (registerBlog reg blog)) = publishedBlogs (registryData reg)"
  by (auto simp: registerBlog_def hasSlug_iff Let_def)

lemma usedCoverPhotos_registerBlog:
  "usedCoverPhotos (registryData (registerBlog reg blog))
     = (if coverPhotoId blog \<noteq> []
        then pushUnlessPresent (coverPhotoId blog) (usedCoverPhotos (registryData reg))
        else usedCoverPhotos (registryData reg))"
  by (simp add: registerBlog_def Let_def)

lemma count_pushUnlessPresent:
  "count_list (pushUnlessPresent p used) p = (if p \<in> set used then count_list used p else 1)"
  by (simp add: pushUnlessPresent_def count_list_0_iff)

lemma pushUnlessPresent_idem:
  "pushUnlessPresent p (pushUnlessPresent p used) = pushUnlessPresent p used"
  by (simp add: pushUnlessPresent_def)


text \<open>
  C5.  After \<open>registerBlog\<close> of a document, \<open>hasSlug\<close> holds for every string whose
  normalization equals that of the document's slug; registering a document with the same
  slug again leaves the list of published blogs as it is; and a non-empty cover photo id
  is in the used list afterwards, pushed once if it was not there (so it occurs exactly
  once when it was new) and not pushed again by a second registration.
\<close>

theorem registerBlog_slug_and_photo:
  "(normalizeSlug v = normalizeSlug (slug blog) \<longrightarrow> hasSlug (registerBlog reg blog) v)
   \<and> (slug blog' = slug blog \<longrightarrow>
        publishedBlogs (registryData (registerBlog (registerBlog reg blog) blog'))
          = publishedBlogs (registryData (registerBlog reg blog)))
   \<and> (coverPhotoId blog \<noteq> [] \<longrightarrow>
        coverPhotoId blog \<in> set (usedCoverPhotos (registryData (registerBlog reg blog)))
        \<and> count_list (usedCoverPhotos (registryData (registerBlog reg blog))) (coverPhotoId blog)
            = (if coverPhotoId blog \<in> set (usedCoverPhotos (registryData reg))
               then count_list (usedCoverPhotos (registryData reg)) (coverPhotoId blog) else 1)
        \<and> usedCoverPhotos (registryData (registerBlog (registerBlog reg blog) blog))
            = usedCoverPhotos (registryData (registerBlog reg blog)))
   \<and> (coverPhotoId blog \<noteq> [] \<and> coverPhotoId blog \<notin> set (usedCoverPhotos (registryData reg)) \<longrightarrow>
        usedCoverPhotos (registryData (registerBlog reg blog))
          = usedCoverPhotos (registryData reg) @ [coverPhotoId blog])"
proof -
  have a: "normalizeSlug v = normalizeSlug (slug blog) \<longrightarrow> hasSlug (registerBlog reg blog) v"
    using hasSlug_registerBlog [of reg blog] hasSlug_cong [of v "slug blog"] by simp
  have b: "slug blog' = slug blog \<longrightarrow>
        publishedBlogs (registryData (registerBlog (registerBlog reg blog) blog'))
          = publishedBlogs (registryData (registerBlog reg blog))"
    using hasSlug_registerBlog [of reg blog]
      publishedBlogs_registerBlog_known [of "registerBlog reg blog" blog'] by simp
  have c: "coverPhotoId blog \<noteq> [] \<longrightarrow>
        coverPhotoId blog \<in> set (usedCoverPhotos (registryData (registerBlog reg blog)))
        \<and> count_list (usedCoverPhotos (registryData (registerBlog reg blog))) (coverPhotoId blog)
            = (if coverPhotoId blog \<in> set (usedCoverPhotos (registryData reg))
               then count_list (usedCoverPhotos (registryData reg)) (coverPhotoId blog) else 1)
        \<and> usedCoverPhotos (registryData (registerBlog (registerBlog reg blog) blog))
            = usedCoverPhotos (registryData (registerBlog reg blog))"
    unfolding usedCoverPhotos_registerBlog
    by (simp add: count_pushUnlessPresent pushUnlessPresent_idem) (simp add: pushUnlessPresent_def)
  have d: "coverPhotoId blog \<noteq> [] \<and> coverPhotoId blog \<notin> set (usedCoverPhotos (registryData reg)) \<longrightarrow>
        usedCoverPhotos (registryData (registerBlog reg blog))
          = usedCoverPhotos (registryData reg) @ [coverPhotoId blog]"
    unfolding usedCoverPhotos_registerBlog by (simp add: pushUnlessPresent_def)
  show ?thesis
    using a b c d by blast
qed


theorem registerBlog_slug_and_photo_witness:
  "hasSlug (registerBlog emptyRegistry harlemBlog) ''HARLEM-Manhattan-geographic-farming-guide!''
   \<and> publishedBlogs (registryData (registerBlog (registerBlog emptyRegistry harlemBlog) harlemBlog))
       = publishedBlogs (registryData (registerBlog emptyRegistry harlemBlog))
   \<and> count_list (usedCoverPhotos (registryData (registerBlog emptyRegistry harlemBlog)))
        ''photo-1555883006-0f5a0915a80f'' = 1
   \<and> usedCoverPhotos (registryData (registerBlog (registerBlog emptyRegistry harlemBlog) harlemBlog))
       = [''photo-1555883006-0f5a0915a80f'']"
proof -
  have n: "normalizeSlug ''HARLEM-Manhattan-geographic-farming-guide!''
             = normalizeSlug (slug harlemBlog)"
    by code_simp
  have p: "coverPhotoId harlemBlog = ''photo-1555883006-0f5a0915a80f''"
    "usedCoverPhotos (registryData emptyRegistry) = []"
    by (simp_all add: harlemBlog_def emptyRegistry_def)
  show ?thesis
    using registerBlog_slug_and_photo
      [where v = "''HARLEM-Manhattan-geographic-farming-guide!''" and blog = harlemBlog
         and reg = emptyRegistry and blog' = harlemBlog] n p
    by simp
qed


section \<open>Looking up a neighborhood\<close>

lemma registered_harlem:
  "publishedBlogs (registryData (registerBlog emptyRegistry harlemBlog))
     = [\<lparr> slug = ''harlem-manhattan-geographic-farming-guide'',
          neighborhood = ''Harlem'', borough = Some ''Manhattan'', city = None,
          state = ''NY'', publishedAt = ''2026-01-06'',
          coverPhotoId = ''photo-1555883006-0f5a0915a80f'', source = seo \<rparr>]"
  by (simp add: registerBlog_def emptyRegistry_def harlemBlog_def hasSlug_def Let_def)


lemma harlem_normal_forms:
  "normalizeAlnum ''Harlem'' = ''harlem''" "normalizeAlnum ''HARLEM'' = ''harlem''"
  "normalizeAlnum ''Manhattan'' = ''manhattan''"
  "normalizeAlnum ''N.Y.'' = ''ny''" "normalizeAlnum ''NY'' = ''ny''"
  "toLowerCase ''N.Y.'' = ''n.y.''" "toLowerCase ''NY'' = ''ny''" "toLowerCase ''ny'' = ''ny''"
  by code_simp+

text \<open>
  C6 (as amended).  \<open>hasNeighborhood\<close> is true exactly when some stored blog has the same
  neighborhood after lower-casing and stripping what is not a letter or a digit, its
  borough agrees with the query's under the same normalization, and its state agrees with
  the query's after lower-casing only; an omitted or blank query borough or state does
  not constrain, and a blank stored one matches anything.
\<close>

theorem hasNeighborhood_matches:
  "hasNeighborhood reg nbh bor st \<longleftrightarrow>
     (\<exists>blog \<in> set (publishedBlogs (registryData reg)).
        normalizeAlnum (neighborhood blog) = normalizeAlnum nbh
        \<and> ((case bor of None \<Rightarrow> [] | Some b \<Rightarrow> normalizeAlnum b) = []
            \<or> (case borough blog of None \<Rightarrow> [] | Some b \<Rightarrow> normalizeAlnum b) = []
            \<or> (case borough blog of None \<Rightarrow> [] | Some b \<Rightarrow> normalizeAlnum b)
                = (case bor of None \<Rightarrow> [] | Some b \<Rightarrow> normalizeAlnum b))
        \<and> ((case st of None \<Rightarrow> [] | Some t \<Rightarrow> toLowerCase t) = []
            \<or> toLowerCase (state blog) = []
            \<or> toLowerCase (state blog) = (case st of None \<Rightarrow> [] | Some t \<Rightarrow> toLowerCase t)))"
  unfolding hasNeighborhood_def Let_def list_ex_iff
  by (intro bex_cong refl) auto


theorem hasNeighborhood_matches_witness:
  "hasNeighborhood (registerBlog emptyRegistry harlemBlog) ''HARLEM'' None (Some ''ny'')"
  using hasNeighborhood_matches
    [of "registerBlog emptyRegistry harlemBlog" "''HARLEM''" None "Some ''ny''"]
  by (simp add: registered_harlem harlem_normal_forms)

text \<open>
  C6 as stated fails: the claim normalizes the state like the other two fields, so the
  query state \<open>N.Y.\<close> would match the stored \<open>NY\<close>; the code compares \<open>n.y.\<close> with
  \<open>ny\<close> and answers false.
\<close>

theorem hasNeighborhood_state_counterexample:
  "\<not> hasNeighborhood (registerBlog emptyRegistry harlemBlog) ''Harlem'' (Some ''Manhattan'') (Some ''N.Y.'')
   \<and> specHasLocation (registerBlog emptyRegistry harlemBlog) ''Harlem'' (Some ''Manhattan'') (Some ''N.Y.'')"
proof -
  show ?thesis
    by (simp add: hasNeighborhood_def specHasLocation_def fieldMatches_def registered_harlem
        harlem_normal_forms Let_def)
qed


section \<open>The minimum-length guard of generateContent\<close>

lemma jsonCandidates_null: "jsonCandidates ''null'' = []"
  by (simp add: jsonCandidates_def matchFenced_def matchBraces_def)

lemma trim_null: "trim ''null'' = ''null''"
  by (simp add: trim_def isWhitespace_def)

lemma generateContent_fallback:
  assumes "extractJSON parse response = Inl e"
  shows "generateContent parse toNumber sha256hex modelName existing brief response
           = Inl (Error tooShortMessage) \<longleftrightarrow> length response < 500"
  using assms
  by (auto simp: generateContent_def fallbackData_def lessThan500_def Let_def)

lemma generateContent_string_content:
  assumes "extractJSON parse response = Inr (JObject props)"
    and "map_of props ''content'' = Some (JString text)"
  shows "generateContent parse toNumber sha256hex modelName existing brief response
           = Inl (Error tooShortMessage) \<longleftrightarrow> length text < 500"
  using assms
  by (auto simp: generateContent_def lessThan500_def Let_def)

lemma generateContent_no_content:
  assumes "extractJSON parse response = Inr (JObject props)"
    and "map_of props ''content'' = None"
  shows "generateContent parse toNumber sha256hex modelName existing brief response
           = Inl (Error tooShortMessage)"
  using assms by (simp add: generateContent_def)


text \<open>
  C9.  The claim says that the too-short error is raised exactly when the candidate
  content is absent or shorter than 500 characters.  For the response \<open>null\<close> no pattern
  matches, the whole text parses to \<open>null\<close>, the candidate content is absent, and
  reading \<open>generatedData.content\<close> throws a \<open>TypeError\<close> instead of the too-short
  error.  For a response that does not parse, and for a parsed object whose content is a
  string or is missing, the claim holds (\<open>generateContent_fallback\<close>,
  \<open>generateContent_string_content\<close>, \<open>generateContent_no_content\<close>).
\<close>

theorem generateContent_null_response:
  assumes "parse ''null'' = Some JNull"
  shows "generateContent parse toNumber sha256hex modelName existing brief ''null''
           = Inl (TypeError ''Cannot read properties of null (reading content)'')
       \<and> generateContent parse toNumber sha256hex modelName existing brief ''null''
           \<noteq> Inl (Error tooShortMessage)"
  using assms
  by (simp add: generateContent_def extractJSON_def jsonCandidates_null trim_null)

theorem generateContent_null_response_witness:
  "generateContent parseOnlyNull (\<lambda>v. None) (\<lambda>s. s) ''qwen'' [] sampleBrief ''null''
     = Inl (TypeError ''Cannot read properties of null (reading content)'')"
proof -
  have "parseOnlyNull ''null'' = Some JNull"
    by (simp add: parseOnlyNull_def)
  then show ?thesis
    using generateContent_null_response [of parseOnlyNull] by simp
qed

end
